theory Spec2Isabelle
  imports Main "HOL-Library.Word"
begin

unbundle bit_operations_syntax

section \<open>Data model\<close>

text \<open>
  The Go types of the library and of the packages it builds on.  Fixed-width integers are
  words; a pointer or slice the code compares with \<open>nil\<close> is an \<open>option\<close>; a Go map is
  a partial function; a function returning \<open>(T, error)\<close> returns \<open>error + T\<close>.
\<close>

type_synonym byte = "8 word"
type_synonym uint16 = "16 word"
type_synonym uint32 = "32 word"

text \<open>\<open>nftables.TableFamily\<close> is a byte; the named families are the kernel's NFPROTO numbers.\<close>

type_synonym TableFamily = byte

definition TableFamilyINet :: TableFamily where "TableFamilyINet = 1"
definition TableFamilyIPv4 :: TableFamily where "TableFamilyIPv4 = 2"
definition TableFamilyARP :: TableFamily where "TableFamilyARP = 3"
definition TableFamilyNetdev :: TableFamily where "TableFamilyNetdev = 5"
definition TableFamilyBridge :: TableFamily where "TableFamilyBridge = 7"
definition TableFamilyIPv6 :: TableFamily where "TableFamilyIPv6 = 10"

text \<open>\<open>nftables.SetDatatype\<close>: a name, a width in bytes and the kernel's type tag
  (read and written through \<open>GetNFTMagic\<close> and \<open>SetNFTMagic\<close>).\<close>

record SetDatatype =
  Name :: string
  Bytes :: uint32
  nftMagic :: uint32

text \<open>The zero value of the struct, then the library's named datatypes.\<close>

definition SetDatatype0 :: SetDatatype where
  "SetDatatype0 = \<lparr>SetDatatype.Name = [], Bytes = 0, nftMagic = 0\<rparr>"

definition TypeInvalid :: SetDatatype where
  "TypeInvalid = \<lparr>SetDatatype.Name = ''invalid'', Bytes = 0, nftMagic = 0\<rparr>"
definition TypeInteger :: SetDatatype where
  "TypeInteger = \<lparr>SetDatatype.Name = ''integer'', Bytes = 4, nftMagic = 4\<rparr>"
definition TypeIPAddr :: SetDatatype where
  "TypeIPAddr = \<lparr>SetDatatype.Name = ''ipv4_addr'', Bytes = 4, nftMagic = 7\<rparr>"
definition TypeIP6Addr :: SetDatatype where
  "TypeIP6Addr = \<lparr>SetDatatype.Name = ''ipv6_addr'', Bytes = 16, nftMagic = 8\<rparr>"
definition TypeEtherAddr :: SetDatatype where
  "TypeEtherAddr = \<lparr>SetDatatype.Name = ''ether_addr'', Bytes = 6, nftMagic = 9\<rparr>"
definition TypeInetProto :: SetDatatype where
  "TypeInetProto = \<lparr>SetDatatype.Name = ''inet_proto'', Bytes = 1, nftMagic = 12\<rparr>"
definition TypeInetService :: SetDatatype where
  "TypeInetService = \<lparr>SetDatatype.Name = ''inet_service'', Bytes = 2, nftMagic = 13\<rparr>"
definition TypeMark :: SetDatatype where
  "TypeMark = \<lparr>SetDatatype.Name = ''mark'', Bytes = 4, nftMagic = 19\<rparr>"

text \<open>\<open>nftables.SetConcatTypeBits\<close>: the width of one tag inside a packed composite tag.\<close>

definition SetConcatTypeBits :: nat where "SetConcatTypeBits = 6"

text \<open>\<open>expr.Verdict\<close> and the library's \<open>RuleAction\<close>, of which the set code reads the
  \<open>verdict\<close> field only.\<close>

record Verdict =
  Kind :: int
  Chain :: string

record RuleAction =
  verdict :: "Verdict option"

text \<open>\<open>nftables.SetElement\<close>; a \<open>nil\<close> byte slice is the empty list.\<close>

record SetElement =
  Key :: "byte list"
  Val :: "byte list"
  IntervalEnd :: bool
  VerdictData :: "Verdict option"

definition SetElement0 :: SetElement where
  "SetElement0 = \<lparr>Key = [], Val = [], IntervalEnd = False, VerdictData = None\<rparr>"

text \<open>\<open>ElementValue\<close> (nfsets.go): every pointer field, and every slice the code tests
  against \<open>nil\<close>, is an option.\<close>

record ElementValue =
  Addr :: string
  Port :: "uint16 option"
  AddrIP :: "string option"
  Action :: "RuleAction option"
  Integer :: "uint32 option"
  IPAddr :: "byte list option"
  EtherAddr :: "byte list option"
  InetProto :: "byte option"
  InetService :: "uint16 option"
  Mark :: "uint32 option"

definition ElementValue0 :: ElementValue where
  "ElementValue0 = \<lparr>Addr = [], Port = None, AddrIP = None, Action = None, Integer = None,
     IPAddr = None, EtherAddr = None, InetProto = None, InetService = None, Mark = None\<rparr>"

text \<open>Every error the modelled code can return, one constructor for each \<open>fmt.Errorf\<close>
  site; \<open>ConnError\<close> is an error handed back by the connection, \<open>NilDereference\<close> and
  \<open>IndexOutOfRange\<close> are the run-time panics.\<close>

datatype error =
    VerdictNil
  | NoKeys
  | KeysValsMismatch
  | KeyValueNil
  | UnsupportedKeyType uint32
  | UnknownTableFamily TableFamily
  | UnsupportedFamily TableFamily
  | ConnError string
  | NilDereference
  | IndexOutOfRange

section \<open>Element and key-type construction (nfsets.go)\<close>

text \<open>\<open>binaryutil.BigEndian.PutUint32\<close> and \<open>PutUint16\<close>.\<close>

definition PutUint32 :: "uint32 \<Rightarrow> byte list" where
  "PutUint32 v = [ucast (drop_bit 24 v), ucast (drop_bit 16 v), ucast (drop_bit 8 v), ucast v]"

definition PutUint16 :: "uint16 \<Rightarrow> byte list" where
  "PutUint16 v = [ucast (drop_bit 8 v), ucast v]"

text \<open>Go's \<open>copy(dst, src)\<close>: the first \<open>min (len dst) (len src)\<close> bytes of \<open>dst\<close> are
  overwritten; the result is the new content of \<open>dst\<close>.\<close>

definition go_copy :: "'a list \<Rightarrow> 'a list \<Rightarrow> 'a list" where
  "go_copy dst src = take (length dst) src @ drop (length src) dst"

text \<open>The alignment step that \<open>processElementValue\<close> and \<open>MakeConcatElement\<close> both
  write out: \<open>if l%4 != 0 { l += 4 - (l % 4) }\<close>.\<close>

definition align4 :: "nat \<Rightarrow> nat" where
  "align4 l = (if l mod 4 \<noteq> 0 then l + (4 - l mod 4) else l)"

definition processElementValue :: "SetDatatype \<Rightarrow> ElementValue \<Rightarrow> error + byte list" where
  "processElementValue keyT keyV =
     (case
        (if keyT = TypeInteger then
           (case Integer keyV of None \<Rightarrow> Inl KeyValueNil | Some v \<Rightarrow> Inr (PutUint32 v))
         else if keyT = TypeMark then
           (case Mark keyV of None \<Rightarrow> Inl KeyValueNil | Some v \<Rightarrow> Inr (PutUint32 v))
         else if keyT = TypeIPAddr \<or> keyT = TypeIP6Addr then
           (case IPAddr keyV of None \<Rightarrow> Inl KeyValueNil
            | Some a \<Rightarrow> Inr (go_copy (replicate (length a) 0) a))
         else if keyT = TypeEtherAddr then
           (case EtherAddr keyV of None \<Rightarrow> Inl KeyValueNil
            | Some a \<Rightarrow> Inr (go_copy (replicate (length a) 0) a))
         else if keyT = TypeInetProto then
           (case InetProto keyV of None \<Rightarrow> Inl KeyValueNil | Some v \<Rightarrow> Inr [v])
         else if keyT = TypeInetService then
           (case InetService keyV of None \<Rightarrow> Inl KeyValueNil | Some v \<Rightarrow> Inr (PutUint16 v))
         else Inl (UnsupportedKeyType (nftMagic keyT)))
      of Inl e \<Rightarrow> Inl e
       | Inr b \<Rightarrow> Inr (go_copy (replicate (align4 (length b)) 0) b))"

text \<open>The loop of \<open>MakeConcatElement\<close> over \<open>i\<close>, reading \<open>keys[i]\<close> and \<open>vals[i]\<close>;
  \<open>key\<close> and \<open>kl\<close> are the loop's two accumulators.\<close>

fun concatLoop :: "SetDatatype list \<Rightarrow> ElementValue list \<Rightarrow> byte list \<Rightarrow> nat
    \<Rightarrow> error + (byte list \<times> nat)" where
  "concatLoop [] vals key kl = Inr (key, kl)"
| "concatLoop (k # keys) [] key kl = Inl IndexOutOfRange"
| "concatLoop (k # keys) (v # vals) key kl =
     (case processElementValue k v of
        Inl e \<Rightarrow> Inl e
      | Inr b \<Rightarrow> concatLoop keys vals (key @ b) (kl + length b))"

definition MakeConcatElement :: "SetDatatype list \<Rightarrow> ElementValue list \<Rightarrow> RuleAction option
    \<Rightarrow> error + SetElement" where
  "MakeConcatElement keys vals ra =
     (case ra of
        None \<Rightarrow> Inl VerdictNil
      | Some a \<Rightarrow>
          if length keys = 0 then Inl NoKeys
          else if length keys \<noteq> length vals then Inl KeysValsMismatch
          else
            (case concatLoop keys vals [] 0 of
               Inl e \<Rightarrow> Inl e
             | Inr (key, kl) \<Rightarrow>
                 Inr (SetElement0\<lparr>Key := go_copy (replicate (align4 kl) 0) key,
                                  VerdictData := verdict a\<rparr>)))"

text \<open>The \<open>default\<close> branch of \<open>GenSetKeyType\<close>: the loop over \<open>i\<close> with the three
  accumulators \<open>name\<close>, \<open>c\<close> and \<open>b\<close>; \<open>n\<close> is \<open>len(types)\<close> and the list is
  \<open>types[i:]\<close>.\<close>

fun genLoop :: "nat \<Rightarrow> SetDatatype list \<Rightarrow> nat \<Rightarrow> string \<times> uint32 \<times> uint32
    \<Rightarrow> string \<times> uint32 \<times> uint32" where
  "genLoop n [] i acc = acc"
| "genLoop n (t # ts) i (name, c, b) =
     (let name1 = name @ ''_'' @ SetDatatype.Name t;
          c1 = push_bit SetConcatTypeBits c OR nftMagic t;
          b1 = (if Bytes t \<le> 4 then b + 4
                else (let b' = b + Bytes t
                      in if Bytes t mod 4 \<noteq> 0 then b' + (4 - Bytes t mod 4) else b'));
          name2 = name1 @ SetDatatype.Name t;
          name3 = (if i < n then name2 @ ''_'' else name2)
      in genLoop n ts (Suc i) (name3, c1, b1))"

definition GenSetKeyType :: "SetDatatype list \<Rightarrow> SetDatatype" where
  "GenSetKeyType types =
     (case types of
        [] \<Rightarrow> TypeInvalid
      | [t] \<Rightarrow>
          \<lparr>SetDatatype.Name = SetDatatype.Name t,
           Bytes = (if Bytes t \<le> 4 then 4
                    else if Bytes t mod 4 \<noteq> 0 then Bytes t + (4 - Bytes t mod 4)
                    else Bytes t),
           nftMagic = nftMagic t\<rparr>
      | _ \<Rightarrow>
          (case genLoop (length types) types 0 (''concat'', 0, 0) of
             (name, c, b) \<Rightarrow> \<lparr>SetDatatype.Name = name, Bytes = b, nftMagic = c\<rparr>))"


section \<open>The connection and the set store (nfsets.go)\<close>

text \<open>\<open>nftables.Table\<close> and \<open>nftables.Set\<close>.  \<open>Set.Table\<close> is a pointer to the owning
  table, which no modelled function writes through: the model keeps the table's value.
  \<open>Timeout\<close> is a \<open>time.Duration\<close>.\<close>

record Table =
  Name :: string
  Use :: uint32
  Flags :: uint32
  Family :: TableFamily

record Set =
  Table :: Table
  ID :: uint32
  Name :: string
  Anonymous :: bool
  Constant :: bool
  Interval :: bool
  IsMap :: bool
  HasTimeout :: bool
  Timeout :: int
  KeyType :: SetDatatype
  DataType :: SetDatatype

definition Table0 :: Table where
  "Table0 = \<lparr>Table.Name = [], Use = 0, Flags = 0, Family = 0\<rparr>"

definition Set0 :: Set where
  "Set0 = \<lparr>Table = Table0, ID = 0, Set.Name = [], Anonymous = False, Set.Constant = False,
     Set.Interval = False, Set.IsMap = False, Set.HasTimeout = False, Set.Timeout = 0,
     Set.KeyType = SetDatatype0, Set.DataType = SetDatatype0\<rparr>"

record SetAttributes =
  Name :: string
  Constant :: bool
  IsMap :: bool
  HasTimeout :: bool
  Timeout :: int
  Interval :: bool
  KeyType :: SetDatatype
  DataType :: SetDatatype

text \<open>
  Modelled from the spec: the connection (the \<open>NetNS\<close> interface), which the repository
  consumes and does not define.  Its mutating operations only enqueue; \<open>calls\<close> is the
  sequence of such calls the library has made, oldest first, each with its arguments.  The
  answers of the connection are the remaining fields: what the kernel lists, and which
  error, if any, an operation returns.
\<close>

datatype ConnCall =
    AddTableCall Table
  | DelTableCall Table
  | AddSetCall Set "SetElement list"
  | FlushCall

record Conn =
  calls :: "ConnCall list"
  ListTables_result :: "error + Table list"
  GetSets_result :: "Table \<Rightarrow> error + Set list"
  AddSet_result :: "Set \<Rightarrow> SetElement list \<Rightarrow> error option"
  Flush_result :: "error option"

definition AddTable :: "Conn \<Rightarrow> Table \<Rightarrow> Conn" where
  "AddTable c t = c\<lparr>calls := calls c @ [AddTableCall t]\<rparr>"

definition AddSet :: "Conn \<Rightarrow> Set \<Rightarrow> SetElement list \<Rightarrow> error option \<times> Conn" where
  "AddSet c s vals = (AddSet_result c s vals, c\<lparr>calls := calls c @ [AddSetCall s vals]\<rparr>)"

definition Flush :: "Conn \<Rightarrow> error option \<times> Conn" where
  "Flush c = (Flush_result c, c\<lparr>calls := calls c @ [FlushCall]\<rparr>)"

definition ListTables :: "Conn \<Rightarrow> error + Table list" where
  "ListTables c = ListTables_result c"

definition GetSets :: "Conn \<Rightarrow> Table \<Rightarrow> error + Set list" where
  "GetSets c t = GetSets_result c t"

text \<open>
  A \<open>sync.Mutex\<close> is the flag "held".  \<open>Lock\<close> on a held mutex never returns, since no
  modelled call releases a mutex it did not take: a function that may block returns an
  \<open>option\<close>, and \<open>None\<close> is "the call never returns".
\<close>

definition Lock :: "bool \<Rightarrow> bool option" where
  "Lock held = (if held then None else Some True)"

definition Unlock :: "bool \<Rightarrow> bool" where
  "Unlock held = False"

text \<open>
  The pseudo-random source of \<open>math/rand\<close> and the set-name generator \<open>getSetName\<close> are
  global state outside the modelled files.  \<open>World\<close> holds their two states; the functions
  that draw from them are parameters of the model, each taking the state and returning the
  value drawn and the next state.
\<close>

record World =
  randState :: nat
  nameState :: nat

type_synonym Intn_fn = "nat \<Rightarrow> int \<Rightarrow> int \<times> nat"

text \<open>\<open>nfSets\<close>: the set store of one table.  Its \<open>conn\<close> field points to the connection
  it shares with the table store, so the model passes the connection beside the store.\<close>

record nfSets =
  table :: Table
  Mutex :: bool
  sets :: "string \<rightharpoonup> Set"

definition newSets :: "Table \<Rightarrow> nfSets" where
  "newSets t = \<lparr>table = t, Mutex = False, sets = Map.empty\<rparr>"

text \<open>\<open>net.ParseIP("0.0.0.0").To4()\<close> and \<open>net.ParseIP("::").To16()\<close>.\<close>

definition zeroIPv4 :: "byte list" where "zeroIPv4 = replicate 4 0"
definition zeroIPv6 :: "byte list" where "zeroIPv6 = replicate 16 0"

text \<open>\<open>CreateSet\<close>.  The local \<open>se\<close> is built as in the source; the call of \<open>AddSet\<close>
  receives \<open>elements\<close>.\<close>

definition CreateSet :: "Intn_fn \<Rightarrow> SetAttributes \<Rightarrow> SetElement list
    \<Rightarrow> World \<times> Conn \<times> nfSets \<Rightarrow> ((error + Set) \<times> World \<times> Conn \<times> nfSets) option" where
  "CreateSet Intn attrs elements st =
     (case st of (w, conn, nfs) \<Rightarrow>
        let se0 = [];
            se1 = (if SetAttributes.Interval attrs then
                     (if SetAttributes.KeyType attrs = TypeIPAddr
                         \<or> SetAttributes.KeyType attrs = TypeIP6Addr then
                        (if Family (table nfs) = TableFamilyIPv4 then
                           se0 @ [SetElement0\<lparr>Key := zeroIPv4, IntervalEnd := True\<rparr>]
                         else
                           se0 @ [SetElement0\<lparr>Key := zeroIPv6, IntervalEnd := True\<rparr>])
                      else se0)
                   else se0);
            (r, rs) = Intn (randState w) 0xffff;
            w1 = w\<lparr>randState := rs\<rparr>;
            s0 = Set0\<lparr>Table := table nfs, ID := word_of_int r,
                      Set.Name := SetAttributes.Name attrs, Anonymous := False,
                      Set.Constant := SetAttributes.Constant attrs,
                      Set.Interval := SetAttributes.Interval attrs,
                      Set.IsMap := SetAttributes.IsMap attrs,
                      Set.HasTimeout := SetAttributes.HasTimeout attrs,
                      Set.KeyType := SetAttributes.KeyType attrs,
                      Set.DataType := SetAttributes.DataType attrs\<rparr>;
            s = (if SetAttributes.HasTimeout attrs \<and> SetAttributes.Timeout attrs \<noteq> 0
                 then s0\<lparr>Set.Timeout := SetAttributes.Timeout attrs\<rparr> else s0);
            se2 = se1 @ elements
        in (case AddSet conn s elements of
              (Some err, conn1) \<Rightarrow> Some (Inl err, w1, conn1, nfs)
            | (None, conn1) \<Rightarrow>
                (case Flush conn1 of
                   (Some err, conn2) \<Rightarrow> Some (Inl err, w1, conn2, nfs)
                 | (None, conn2) \<Rightarrow>
                     (case Lock (Mutex nfs) of
                        None \<Rightarrow> None
                      | Some held \<Rightarrow>
                          Some (Inr s, w1, conn2,
                                nfs\<lparr>Mutex := Unlock held,
                                    sets := (sets nfs)(SetAttributes.Name attrs \<mapsto> s)\<rparr>)))))"

text \<open>\<open>nfSets.Sync\<close>: the loop over the sets the kernel reports.  A set that is not in
  the store is stored between two calls of \<open>Lock\<close>.\<close>

fun setsSyncLoop :: "Set list \<Rightarrow> nfSets \<Rightarrow> (error option \<times> nfSets) option" where
  "setsSyncLoop [] nfs = Some (None, nfs)"
| "setsSyncLoop (s # ss) nfs =
     (case sets nfs (Set.Name s) of
        Some _ \<Rightarrow> setsSyncLoop ss nfs
      | None \<Rightarrow>
          (case Lock (Mutex nfs) of
             None \<Rightarrow> None
           | Some held1 \<Rightarrow>
               (let nfs1 = nfs\<lparr>Mutex := held1, sets := (sets nfs)(Set.Name s \<mapsto> s)\<rparr>
                in case Lock (Mutex nfs1) of
                     None \<Rightarrow> None
                   | Some held2 \<Rightarrow> setsSyncLoop ss (nfs1\<lparr>Mutex := held2\<rparr>))))"

definition nfSets_Sync :: "Conn \<Rightarrow> nfSets \<Rightarrow> (error option \<times> nfSets) option" where
  "nfSets_Sync conn nfs =
     (case GetSets conn (table nfs) of
        Inl err \<Rightarrow> Some (Some err, nfs)
      | Inr kernelSets \<Rightarrow> setsSyncLoop kernelSets nfs)"


section \<open>The table store (nftables.go)\<close>

text \<open>
  \<open>nfTable\<close> embeds the two interfaces \<open>ChainsInterface\<close> and \<open>SetsInterface\<close>, either
  of which may be \<open>nil\<close>.  The chain store lives in a file outside the modelled ones: its
  type is the parameter \<open>'c\<close>, and its constructor \<open>newChains\<close> and its \<open>Sync\<close> are
  parameters of the functions that call them.  \<open>nfTables.tables\<close> is the two-level map,
  family first.
\<close>

record 'c nfTable =
  table :: Table
  ChainsInterface :: "'c option"
  SetsInterface :: "nfSets option"

record 'c nfTables =
  conn :: Conn
  Mutex :: bool
  tables :: "TableFamily \<rightharpoonup> (string \<rightharpoonup> 'c nfTable)"

type_synonym 'c newChains_fn = "Table \<Rightarrow> 'c"
type_synonym 'c chainsSync_fn = "Conn \<Rightarrow> 'c \<Rightarrow> (error option \<times> 'c) option"

text \<open>The comma-ok read \<open>nft.tables[familyType][name]\<close>; reading a missing family's
  \<open>nil\<close> map finds nothing.\<close>

definition lookupTable :: "'c nfTables \<Rightarrow> TableFamily \<Rightarrow> string \<Rightarrow> 'c nfTable option" where
  "lookupTable nft familyType name =
     (case tables nft familyType of None \<Rightarrow> None | Some bucket \<Rightarrow> bucket name)"

text \<open>The tail of \<open>create\<close>, from \<open>t := &nftables.Table{...}\<close> on, where \<open>bucket\<close> is
  the family's map at that point.\<close>

definition allocTable :: "'c newChains_fn \<Rightarrow> string \<Rightarrow> TableFamily \<Rightarrow> (string \<rightharpoonup> 'c nfTable)
    \<Rightarrow> 'c nfTables \<Rightarrow> 'c nfTable \<times> 'c nfTables" where
  "allocTable newChains name familyType bucket nft =
     (let t = Table0\<lparr>Family := familyType, Table.Name := name\<rparr>;
          r = \<lparr>nfTable.table = t, ChainsInterface = Some (newChains t),
               SetsInterface = Some (newSets t)\<rparr>
      in (r, nft\<lparr>tables := (tables nft)(familyType \<mapsto> bucket(name \<mapsto> r))\<rparr>))"

definition create :: "'c newChains_fn \<Rightarrow> string \<Rightarrow> TableFamily \<Rightarrow> 'c nfTables
    \<Rightarrow> 'c nfTable \<times> 'c nfTables" where
  "create newChains name familyType nft =
     (case tables nft familyType of
        Some bucket \<Rightarrow>
          (case bucket name of
             Some r \<Rightarrow>
               if ChainsInterface r \<noteq> None \<and> SetsInterface r \<noteq> None then (r, nft)
               else allocTable newChains name familyType bucket nft
           | None \<Rightarrow> allocTable newChains name familyType bucket nft)
      | None \<Rightarrow> allocTable newChains name familyType Map.empty nft)"

definition Create :: "'c newChains_fn \<Rightarrow> string \<Rightarrow> TableFamily \<Rightarrow> 'c nfTables
    \<Rightarrow> (error option \<times> 'c nfTables) option" where
  "Create newChains name familyType nft =
     (case Lock (nfTables.Mutex nft) of
        None \<Rightarrow> None
      | Some held \<Rightarrow>
          (case create newChains name familyType (nft\<lparr>nfTables.Mutex := held\<rparr>) of
             (r, nft1) \<Rightarrow>
               (let nft2 = nft1\<lparr>conn := AddTable (conn nft1) (nfTable.table r)\<rparr>
                in Some (None, nft2\<lparr>nfTables.Mutex := Unlock (nfTables.Mutex nft2)\<rparr>))))"

definition get :: "'c nfTables \<Rightarrow> TableFamily \<Rightarrow> error + string list" where
  "get nft familyType =
     (case ListTables (conn nft) of
        Inl err \<Rightarrow> Inl err
      | Inr kernelTables \<Rightarrow>
          Inr (map Table.Name (filter (\<lambda>t. Family t = familyType) kernelTables)))"

definition Exist :: "'c nfTables \<Rightarrow> string \<Rightarrow> TableFamily \<Rightarrow> bool" where
  "Exist nft name familyType =
     (case lookupTable nft familyType name of
        Some _ \<Rightarrow> True
      | None \<Rightarrow>
          (case get nft familyType of
             Inl err \<Rightarrow> False
           | Inr names \<Rightarrow> list_ex (\<lambda>t. t = name) names))"

text \<open>\<open>Sync\<close> mutates the chain and set store of the record \<open>create\<close> returned, through
  the pointer \<open>nt\<close> that the registry holds too: \<open>storeTable\<close> is that write.\<close>

definition storeTable :: "TableFamily \<Rightarrow> string \<Rightarrow> 'c nfTable \<Rightarrow> 'c nfTables \<Rightarrow> 'c nfTables" where
  "storeTable familyType name r nft =
     nft\<lparr>tables := (tables nft)(familyType \<mapsto>
            (case tables nft familyType of None \<Rightarrow> Map.empty | Some bucket \<Rightarrow> bucket)
              (name \<mapsto> r))\<rparr>"

text \<open>The body of the loop of \<open>Sync\<close> for a kernel table of the family that the registry
  does not hold: the result is \<open>None\<close> when a call blocks, \<open>Some (Some err, _)\<close> when the
  body returns \<open>err\<close>, and \<open>Some (None, _)\<close> when the loop goes on.\<close>

definition syncTable :: "'c newChains_fn \<Rightarrow> 'c chainsSync_fn \<Rightarrow> Table \<Rightarrow> 'c nfTables
    \<Rightarrow> (error option \<times> 'c nfTables) option" where
  "syncTable newChains chainsSync t nft =
     (case create newChains (Table.Name t) (Family t) nft of
        (nt, nft1) \<Rightarrow>
          (case ChainsInterface nt of
             None \<Rightarrow> Some (Some NilDereference, nft1)
           | Some c \<Rightarrow>
               (case chainsSync (conn nft1) c of
                  None \<Rightarrow> None
                | Some (cerr, c1) \<Rightarrow>
                    (let nt1 = nt\<lparr>ChainsInterface := Some c1\<rparr>;
                         nft2 = storeTable (Family t) (Table.Name t) nt1 nft1
                     in case cerr of
                          Some err \<Rightarrow> Some (Some err, nft2)
                        | None \<Rightarrow>
                            (case SetsInterface nt1 of
                               None \<Rightarrow> Some (Some NilDereference, nft2)
                             | Some s \<Rightarrow>
                                 (case nfSets_Sync (conn nft2) s of
                                    None \<Rightarrow> None
                                  | Some (serr, s1) \<Rightarrow>
                                      Some (serr,
                                        storeTable (Family t) (Table.Name t)
                                          (nt1\<lparr>SetsInterface := Some s1\<rparr>) nft2)))))))"

fun syncLoop :: "'c newChains_fn \<Rightarrow> 'c chainsSync_fn \<Rightarrow> TableFamily \<Rightarrow> Table list
    \<Rightarrow> 'c nfTables \<Rightarrow> (error option \<times> 'c nfTables) option" where
  "syncLoop newChains chainsSync familyType [] nft = Some (None, nft)"
| "syncLoop newChains chainsSync familyType (t # ts) nft =
     (if Family t = familyType then
        (case lookupTable nft familyType (Table.Name t) of
           Some _ \<Rightarrow> syncLoop newChains chainsSync familyType ts nft
         | None \<Rightarrow>
             (case syncTable newChains chainsSync t nft of
                None \<Rightarrow> None
              | Some (Some err, nft1) \<Rightarrow> Some (Some err, nft1)
              | Some (None, nft1) \<Rightarrow> syncLoop newChains chainsSync familyType ts nft1))
      else syncLoop newChains chainsSync familyType ts nft)"

text \<open>\<open>Sync\<close>: the mutex is taken, released after a successful \<open>ListTables\<close> and left
  held on the error return; the loop runs without it.\<close>

definition Sync :: "'c newChains_fn \<Rightarrow> 'c chainsSync_fn \<Rightarrow> TableFamily \<Rightarrow> 'c nfTables
    \<Rightarrow> (error option \<times> 'c nfTables) option" where
  "Sync newChains chainsSync familyType nft =
     (case Lock (nfTables.Mutex nft) of
        None \<Rightarrow> None
      | Some held \<Rightarrow>
          (case ListTables (conn nft) of
             Inl err \<Rightarrow> Some (Some err, nft\<lparr>nfTables.Mutex := held\<rparr>)
           | Inr kernelTables \<Rightarrow>
               syncLoop newChains chainsSync familyType kernelTables
                 (nft\<lparr>nfTables.Mutex := Unlock held\<rparr>)))"


section \<open>The L3 address compiler\<close>

text \<open>
  The types the compiler reads, declared in files outside the modelled ones; only the
  fields the compiler touches are kept.  \<open>IPAddrSpec.List\<close> is a slice of pointers and may
  itself be \<open>nil\<close>; \<open>IPAddrSpec.Range\<close> is an array of two pointers; \<open>Rule.L3\<close> is a
  pointer.  \<open>nfSet.set'\<close> is the field \<open>set\<close> of the source.
\<close>

record IPAddr =
  IP :: "byte list"

record IPAddrSpec =
  List :: "IPAddr option list option"
  Range :: "IPAddr option \<times> IPAddr option"

record L3Rule =
  Src :: "IPAddrSpec option"
  Dst :: "IPAddrSpec option"
  Version :: "byte option"
  Protocol :: "uint32 option"

record Rule =
  L3 :: "L3Rule option"
  Exclude :: bool

record nfSet =
  set' :: Set
  elements :: "SetElement list"

text \<open>
  The compiler's callees outside the modelled files are the fields of \<open>L3Env\<close>: the two
  generators, which draw from the \<open>World\<close>, and the four expression builders, whose
  result is a list of expressions of the type \<open>'e\<close> (\<open>expr.Any\<close>) or an error.
\<close>

record 'e L3Env =
  getSetName :: "nat \<Rightarrow> string \<times> nat"
  Intn :: Intn_fn
  getExprForIPVersion :: "byte \<Rightarrow> bool \<Rightarrow> error + 'e list"
  getExprForProtocol :: "TableFamily \<Rightarrow> uint32 \<Rightarrow> bool \<Rightarrow> error + 'e list"
  getExprForListIPV2 :: "TableFamily \<Rightarrow> Set \<Rightarrow> uint32 \<Rightarrow> bool \<Rightarrow> error + 'e list"
  getExprForRangeIP :: "TableFamily \<Rightarrow> uint32 \<Rightarrow> IPAddr option \<times> IPAddr option \<Rightarrow> bool
                        \<Rightarrow> error + 'e list"

text \<open>\<open>net.IP.To4\<close> and \<open>net.IP.To16\<close>; \<open>nil\<close> is the empty list.\<close>

definition v4InV6Prefix :: "byte list" where
  "v4InV6Prefix = replicate 10 0 @ [0xff, 0xff]"

definition To4 :: "byte list \<Rightarrow> byte list" where
  "To4 ip =
     (if length ip = 4 then ip
      else if length ip = 16 \<and> take 12 ip = v4InV6Prefix then drop 12 ip
      else [])"

definition To16 :: "byte list \<Rightarrow> byte list" where
  "To16 ip =
     (if length ip = 4 then v4InV6Prefix @ ip
      else if length ip = 16 then ip
      else [])"

text \<open>One of the two loops of \<open>processAddrList\<close>: \<open>se[i].Key = f(list[i].IP)\<close> for every
  \<open>i\<close>, where \<open>f\<close> is \<open>To4\<close> or \<open>To16\<close>.\<close>

fun setKeys :: "(byte list \<Rightarrow> byte list) \<Rightarrow> IPAddr option list \<Rightarrow> SetElement list
    \<Rightarrow> error + SetElement list" where
  "setKeys f [] se = Inr se"
| "setKeys f (None # list) se = Inl NilDereference"
| "setKeys f (Some a # list) [] = Inl IndexOutOfRange"
| "setKeys f (Some a # list) (e # se) =
     (case setKeys f list se of
        Inl p \<Rightarrow> Inl p
      | Inr se1 \<Rightarrow> Inr (e\<lparr>Key := f (IP a)\<rparr> # se1))"

definition processAddrList :: "'e L3Env \<Rightarrow> TableFamily \<Rightarrow> uint32 \<Rightarrow> IPAddr option list \<Rightarrow> bool
    \<Rightarrow> World \<Rightarrow> (error + ('e list \<times> nfSet option)) \<times> World" where
  "processAddrList H l3proto offset list excl w =
     (case getSetName H (nameState w) of
        (name, ns) \<Rightarrow>
          (case Intn H (randState w) 0xffff of
             (r, rs) \<Rightarrow>
               (let w1 = w\<lparr>randState := rs, nameState := ns\<rparr>;
                    s = Set0\<lparr>Anonymous := False, Set.Constant := True, Set.Name := name,
                             ID := word_of_int r\<rparr>;
                    se0 = replicate (length list) SetElement0
                in case (if l3proto = TableFamilyIPv4 then setKeys To4 list se0 else Inr se0) of
                     Inl p \<Rightarrow> (Inl p, w1)
                   | Inr se1 \<Rightarrow>
                       (case (if l3proto = TableFamilyIPv6 then setKeys To16 list se1
                              else Inr se1) of
                          Inl p \<Rightarrow> (Inl p, w1)
                        | Inr se \<Rightarrow>
                            if length se = 0 then (Inl (UnknownTableFamily l3proto), w1)
                            else
                              (case getExprForListIPV2 H l3proto s offset excl of
                                 Inl err \<Rightarrow> (Inl err, w1)
                               | Inr re \<Rightarrow>
                                   (Inr (re, Some \<lparr>set' = s, elements = se\<rparr>), w1))))))"

definition processAddrRange :: "'e L3Env \<Rightarrow> TableFamily \<Rightarrow> uint32
    \<Rightarrow> IPAddr option \<times> IPAddr option \<Rightarrow> bool \<Rightarrow> error + ('e list \<times> nfSet option)" where
  "processAddrRange H l3proto offset rng excl =
     (case getExprForRangeIP H l3proto offset rng excl of
        Inl err \<Rightarrow> Inl err
      | Inr re \<Rightarrow> Inr (re, None))"

definition processVersion :: "'e L3Env \<Rightarrow> byte \<Rightarrow> bool \<Rightarrow> error + ('e list \<times> nfSet option)" where
  "processVersion H version excl =
     (case getExprForIPVersion H version excl of
        Inl err \<Rightarrow> Inl err
      | Inr re \<Rightarrow> Inr (re, None))"

definition processProtocol :: "'e L3Env \<Rightarrow> TableFamily \<Rightarrow> uint32 \<Rightarrow> bool
    \<Rightarrow> error + ('e list \<times> nfSet option)" where
  "processProtocol H l3proto proto excl =
     (case getExprForProtocol H l3proto proto excl of
        Inl err \<Rightarrow> Inl err
      | Inr re \<Rightarrow> Inr (re, None))"

text \<open>The \<open>if set != nil\<close> block of \<open>processIPAddr\<close>.\<close>

definition addSet :: "SetDatatype \<Rightarrow> nfSet option \<Rightarrow> nfSet list \<Rightarrow> nfSet list" where
  "addSet keyType setp sets0 =
     (case setp of
        None \<Rightarrow> sets0
      | Some s \<Rightarrow> sets0 @ [s\<lparr>set' := (set' s)\<lparr>Set.KeyType := keyType\<rparr>\<rparr>])"

definition processIPAddr :: "'e L3Env \<Rightarrow> TableFamily \<Rightarrow> IPAddrSpec \<Rightarrow> bool \<Rightarrow> bool \<Rightarrow> World
    \<Rightarrow> (error + ('e list \<times> nfSet list)) \<times> World" where
  "processIPAddr H l3proto addrs src exclude w =
     (case (if l3proto = TableFamilyIPv4 then ((if src then 12 else 16), TypeIPAddr)
            else if l3proto = TableFamilyIPv6 then ((if src then 8 else 24), TypeIP6Addr)
            else (0, SetDatatype0)) of
        (addrOffset, keyType) \<Rightarrow>
          (case (case IPAddrSpec.List addrs of
                   None \<Rightarrow> (Inr ([], []), w)
                 | Some list \<Rightarrow>
                     (case processAddrList H l3proto addrOffset list exclude w of
                        (Inl err, w1) \<Rightarrow> (Inl err, w1)
                      | (Inr (e, setp), w1) \<Rightarrow> (Inr ([] @ e, addSet keyType setp []), w1))) of
             (Inl err, w1) \<Rightarrow> (Inl err, w1)
           | (Inr (re, sets0), w1) \<Rightarrow>
               (case IPAddrSpec.Range addrs of
                  (Some lo, Some hi) \<Rightarrow>
                    (case processAddrRange H l3proto addrOffset (IPAddrSpec.Range addrs)
                            exclude of
                       Inl err \<Rightarrow> (Inl err, w1)
                     | Inr (e, setp) \<Rightarrow> (Inr (re @ e, addSet keyType setp sets0), w1))
                | _ \<Rightarrow> (Inr (re, sets0), w1))))"

text \<open>\<open>createL3\<close>; the dereference of a \<open>nil\<close> \<open>rule.L3\<close> is the panic.\<close>

definition createL3 :: "'e L3Env \<Rightarrow> TableFamily \<Rightarrow> Rule \<Rightarrow> World
    \<Rightarrow> (error + ('e list \<times> nfSet list)) \<times> World" where
  "createL3 H l3proto rule w =
     (case L3 rule of
        None \<Rightarrow> (Inl NilDereference, w)
      | Some l3 \<Rightarrow>
          (case (case Version l3 of
                   None \<Rightarrow> Inr []
                 | Some v \<Rightarrow>
                     (case processVersion H v (Exclude rule) of
                        Inl err \<Rightarrow> Inl err
                      | Inr (e, _) \<Rightarrow> Inr ([] @ e))) of
             Inl err \<Rightarrow> (Inl err, w)
           | Inr re1 \<Rightarrow>
               (case (case Protocol l3 of
                        None \<Rightarrow> Inr re1
                      | Some p \<Rightarrow>
                          (case processProtocol H l3proto p (Exclude rule) of
                             Inl err \<Rightarrow> Inl err
                           | Inr (e, _) \<Rightarrow> Inr (re1 @ e))) of
                  Inl err \<Rightarrow> (Inl err, w)
                | Inr re2 \<Rightarrow>
                    (case (case Src l3 of
                             None \<Rightarrow> (Inr (re2, []), w)
                           | Some a \<Rightarrow>
                               (case processIPAddr H l3proto a True (Exclude rule) w of
                                  (Inl err, w1) \<Rightarrow> (Inl err, w1)
                                | (Inr (e, sets0), w1) \<Rightarrow> (Inr (re2 @ e, [] @ sets0), w1))) of
                       (Inl err, w1) \<Rightarrow> (Inl err, w1)
                     | (Inr (re3, sets3), w1) \<Rightarrow>
                         (case Dst l3 of
                            None \<Rightarrow> (Inr (re3, sets3), w1)
                          | Some a \<Rightarrow>
                              (case processIPAddr H l3proto a False (Exclude rule) w1 of
                                 (Inl err, w2) \<Rightarrow> (Inl err, w2)
                               | (Inr (e, sets0), w2) \<Rightarrow>
                                   (Inr (re3 @ e, sets3 @ sets0), w2)))))))"

text \<open>
  Modelled from the spec: \<open>getExprForListIPV2\<close> and \<open>getExprForRangeIP\<close>, the two
  expression builders of the address compiler, which the modelled files call and do not
  define.  The spec gives them a header load at the offset they receive, of the family's
  address width (4 or 16 bytes), followed by a set lookup for a list and by an inline range
  comparison for a range, inverted when exclusion is requested; and it makes a family
  outside IPv4 and IPv6 fail with an unsupported-family condition.
\<close>

datatype Expr =
    Payload uint32 uint32
  | Lookup string uint32 bool
  | RangeCmp bool "byte list" "byte list"

definition spec_getExprForListIPV2 :: "TableFamily \<Rightarrow> Set \<Rightarrow> uint32 \<Rightarrow> bool \<Rightarrow> error + Expr list" where
  "spec_getExprForListIPV2 l3proto s offset excl =
     (if l3proto = TableFamilyIPv4 then
        Inr [Payload offset 4, Lookup (Set.Name s) (ID s) excl]
      else if l3proto = TableFamilyIPv6 then
        Inr [Payload offset 16, Lookup (Set.Name s) (ID s) excl]
      else Inl (UnsupportedFamily l3proto))"

definition spec_getExprForRangeIP :: "TableFamily \<Rightarrow> uint32 \<Rightarrow> IPAddr option \<times> IPAddr option
    \<Rightarrow> bool \<Rightarrow> error + Expr list" where
  "spec_getExprForRangeIP l3proto offset rng excl =
     (case rng of
        (Some lo, Some hi) \<Rightarrow>
          (if l3proto = TableFamilyIPv4 then
             Inr [Payload offset 4, RangeCmp excl (To4 (IP lo)) (To4 (IP hi))]
           else if l3proto = TableFamilyIPv6 then
             Inr [Payload offset 16, RangeCmp excl (To16 (IP lo)) (To16 (IP hi))]
           else Inl (UnsupportedFamily l3proto))
      | _ \<Rightarrow> Inl NilDereference)"

text \<open>An environment whose two address builders are the spec's; the other callees stay
  those of \<open>H\<close>.\<close>

definition withSpecBuilders :: "Expr L3Env \<Rightarrow> Expr L3Env" where
  "withSpecBuilders H =
     H\<lparr>getExprForListIPV2 := spec_getExprForListIPV2,
       getExprForRangeIP := spec_getExprForRangeIP\<rparr>"

text \<open>An environment whose two address builders ignore the offset they are called with
  and build for the offset \<open>n\<close>.\<close>

definition atOffset :: "uint32 \<Rightarrow> 'e L3Env \<Rightarrow> 'e L3Env" where
  "atOffset n H =
     H\<lparr>getExprForListIPV2 := (\<lambda>l3proto s offset. getExprForListIPV2 H l3proto s n),
       getExprForRangeIP := (\<lambda>l3proto offset. getExprForRangeIP H l3proto n)\<rparr>"

text \<open>An address specification is populated when its list is not \<open>nil\<close> or both ends of
  its range are given.\<close>

definition populated :: "IPAddrSpec \<Rightarrow> bool" where
  "populated addrs =
     (IPAddrSpec.List addrs \<noteq> None
      \<or> (fst (IPAddrSpec.Range addrs) \<noteq> None \<and> snd (IPAddrSpec.Range addrs) \<noteq> None))"

section \<open>The statements of the specification\<close>

text \<open>Rounding up to the next multiple of 4, as the spec words it, and the padded key
  length recomputed from the component datatypes alone: the sum of their widths
  (\<open>Bytes\<close>), each rounded up.\<close>

definition roundUp4 :: "nat \<Rightarrow> nat" where
  "roundUp4 n = ((n + 3) div 4) * 4"

definition expectedKeyLen :: "SetDatatype list \<Rightarrow> nat" where
  "expectedKeyLen ks = sum_list (map (\<lambda>k. roundUp4 (unat (Bytes k))) ks)"

text \<open>The length of the encoding that \<open>processElementValue\<close> builds for a component
  before it pads it: 4 bytes for an integer or a mark, 1 for a protocol number, 2 for a
  service, and, for the address datatypes, the length of the byte slice the caller gave,
  which the code copies whatever the datatype's width.\<close>

definition encodedLen :: "SetDatatype \<Rightarrow> ElementValue \<Rightarrow> nat" where
  "encodedLen keyT keyV =
     (if keyT = TypeInteger \<or> keyT = TypeMark then 4
      else if keyT = TypeIPAddr \<or> keyT = TypeIP6Addr then
        (case IPAddr keyV of None \<Rightarrow> 0 | Some a \<Rightarrow> length a)
      else if keyT = TypeEtherAddr then
        (case EtherAddr keyV of None \<Rightarrow> 0 | Some a \<Rightarrow> length a)
      else if keyT = TypeInetProto then 1
      else if keyT = TypeInetService then 2
      else 0)"

text \<open>The composite name as the spec words it: \<open>concat\<close>, then every component name
  behind one underscore.\<close>

definition joinedName :: "SetDatatype list \<Rightarrow> string" where
  "joinedName types = ''concat'' @ concat (map (\<lambda>t. ''_'' @ SetDatatype.Name t) types)"

text \<open>The offset table of the spec: source at 12 and destination at 16 for IPv4, source
  at 8 and destination at 24 for IPv6; and the offsets of the header loads in a list of
  expressions.\<close>

definition addrOffsetOf :: "TableFamily \<Rightarrow> bool \<Rightarrow> uint32" where
  "addrOffsetOf f src =
     (if f = TableFamilyIPv4 then (if src then 12 else 16)
      else if f = TableFamilyIPv6 then (if src then 8 else 24)
      else 0)"

fun payloadOffsets :: "Expr list \<Rightarrow> uint32 list" where
  "payloadOffsets [] = []"
| "payloadOffsets (Payload off len # es) = off # payloadOffsets es"
| "payloadOffsets (e # es) = payloadOffsets es"

text \<open>
  What the expressions of a compiled address specification are, in terms of the builders:
  \<open>builtAt H f n spec excl re\<close> holds when \<open>re\<close> is what the list builder of \<open>H\<close>
  returned, called at the offset \<open>n\<close> (nothing when the list is \<open>nil\<close>), followed by
  what the range builder returned, called at the offset \<open>n\<close> (nothing unless both ends
  of the range are given); an absent specification has no expressions.  Likewise for the
  version and the protocol of a rule.
\<close>

definition builtAt :: "'e L3Env \<Rightarrow> TableFamily \<Rightarrow> uint32 \<Rightarrow> IPAddrSpec option \<Rightarrow> bool \<Rightarrow> 'e list
    \<Rightarrow> bool" where
  "builtAt H f n spec excl re =
     (case spec of
        None \<Rightarrow> re = []
      | Some a \<Rightarrow>
          (\<exists>reL reR. re = reL @ reR
             \<and> (case IPAddrSpec.List a of
                   None \<Rightarrow> reL = []
                 | Some lst \<Rightarrow> (\<exists>s. getExprForListIPV2 H f s n excl = Inr reL))
             \<and> (case IPAddrSpec.Range a of
                   (Some lo, Some hi) \<Rightarrow>
                     getExprForRangeIP H f n (IPAddrSpec.Range a) excl = Inr reR
                 | _ \<Rightarrow> reR = [])))"

definition builtVersion :: "'e L3Env \<Rightarrow> L3Rule \<Rightarrow> bool \<Rightarrow> 'e list \<Rightarrow> bool" where
  "builtVersion H l3 excl re =
     (case Version l3 of None \<Rightarrow> re = [] | Some v \<Rightarrow> getExprForIPVersion H v excl = Inr re)"

definition builtProtocol :: "'e L3Env \<Rightarrow> TableFamily \<Rightarrow> L3Rule \<Rightarrow> bool \<Rightarrow> 'e list \<Rightarrow> bool" where
  "builtProtocol H f l3 excl re =
     (case Protocol l3 of None \<Rightarrow> re = []
      | Some p \<Rightarrow> getExprForProtocol H f p excl = Inr re)"

text \<open>The contract of \<open>rand.Intn\<close>: for a positive \<open>n\<close> the value drawn is in \<open>[0, n)\<close>.\<close>

definition Intn_contract :: "Intn_fn \<Rightarrow> bool" where
  "Intn_contract f = (\<forall>st n. 0 < n \<longrightarrow> 0 \<le> fst (f st n) \<and> fst (f st n) < n)"


text \<open>A value fits its datatype when an address component has exactly the datatype's
  width; the other datatypes are encoded from fixed-width integers and always fit.\<close>

definition fitsWidth :: "SetDatatype \<Rightarrow> ElementValue \<Rightarrow> bool" where
  "fitsWidth keyT keyV =
     (if keyT = TypeIPAddr \<or> keyT = TypeIP6Addr then
        (case IPAddr keyV of None \<Rightarrow> False | Some a \<Rightarrow> length a = unat (Bytes keyT))
      else if keyT = TypeEtherAddr then
        (case EtherAddr keyV of None \<Rightarrow> False | Some a \<Rightarrow> length a = unat (Bytes keyT))
      else True)"

section \<open>Concrete inputs\<close>

text \<open>A random source and a name generator, a connection on which every operation
  succeeds and the kernel holds nothing, and the IPv4 table \<open>filter-v4\<close>.\<close>

definition exampleIntn :: Intn_fn where
  "exampleIntn st n = (int st mod n, Suc st)"

definition exampleWorld :: World where
  "exampleWorld = \<lparr>randState = 70000, nameState = 0\<rparr>"

definition exampleConn :: Conn where
  "exampleConn = \<lparr>calls = [], ListTables_result = Inr [], GetSets_result = (\<lambda>t. Inr []),
     AddSet_result = (\<lambda>s vals. None), Flush_result = None\<rparr>"

definition tableV4 :: Table where
  "tableV4 = Table0\<lparr>Family := TableFamilyIPv4, Table.Name := ''filter-v4''\<rparr>"

text \<open>An interval set of IPv4 addresses with one element, and the set \<open>CreateSet\<close>
  builds from it.\<close>

definition intervalAttrs :: SetAttributes where
  "intervalAttrs = \<lparr>SetAttributes.Name = ''blocked'', Constant = False, IsMap = False,
     HasTimeout = False, Timeout = 0, Interval = True, KeyType = TypeIPAddr,
     DataType = SetDatatype0\<rparr>"

definition userElement :: SetElement where
  "userElement = SetElement0\<lparr>Key := [10, 0, 0, 0]\<rparr>"

definition blockedSet :: Set where
  "blockedSet = Set0\<lparr>Table := tableV4, ID := 4465, Set.Name := ''blocked'',
     Set.Interval := True, Set.KeyType := TypeIPAddr\<rparr>"

text \<open>Table stores whose chain store is the unit value: an empty one; one whose
  connection fails to list the kernel's tables; and one that holds the table
  \<open>local-only\<close>, which the kernel does not report, while the kernel reports \<open>filter-v4\<close>,
  together with the store \<open>Sync\<close> turns it into.\<close>

definition exampleStore :: "unit nfTables" where
  "exampleStore = \<lparr>conn = exampleConn, Mutex = False, tables = Map.empty\<rparr>"

definition failingConn :: Conn where
  "failingConn = exampleConn\<lparr>ListTables_result := Inl (ConnError ''netlink receive'')\<rparr>"

definition failingStore :: "unit nfTables" where
  "failingStore = exampleStore\<lparr>conn := failingConn\<rparr>"

definition localTable :: Table where
  "localTable = Table0\<lparr>Family := TableFamilyIPv4, Table.Name := ''local-only''\<rparr>"

definition localRecord :: "unit nfTable" where
  "localRecord = \<lparr>nfTable.table = localTable, ChainsInterface = Some (),
     SetsInterface = Some (newSets localTable)\<rparr>"

definition kernelConn :: Conn where
  "kernelConn = exampleConn\<lparr>ListTables_result := Inr [tableV4]\<rparr>"

definition localStore :: "unit nfTables" where
  "localStore = \<lparr>conn = kernelConn, Mutex = False,
     tables = [TableFamilyIPv4 \<mapsto> [''local-only'' \<mapsto> localRecord]]\<rparr>"

definition syncedRecord :: "unit nfTable" where
  "syncedRecord = \<lparr>nfTable.table = tableV4, ChainsInterface = Some (),
     SetsInterface = Some (newSets tableV4)\<rparr>"

definition syncedStore :: "unit nfTables" where
  "syncedStore = \<lparr>conn = kernelConn, Mutex = False,
     tables = [TableFamilyIPv4 \<mapsto>
                 [''local-only'' \<mapsto> localRecord, ''filter-v4'' \<mapsto> syncedRecord]]\<rparr>"

definition exampleChainsSync :: "unit chainsSync_fn" where
  "exampleChainsSync c cs = Some (None, cs)"

text \<open>An environment of the L3 compiler with the spec's address builders, a source
  address list of one IPv4 address, and the lookup set compiled from it.\<close>

definition exampleEnv :: "Expr L3Env" where
  "exampleEnv = \<lparr>getSetName = (\<lambda>st. (''set0'', Suc st)), Intn = exampleIntn,
     getExprForIPVersion = (\<lambda>v excl. Inr []),
     getExprForProtocol = (\<lambda>f p excl. Inr []),
     getExprForListIPV2 = spec_getExprForListIPV2,
     getExprForRangeIP = spec_getExprForRangeIP\<rparr>"

definition listSpec :: IPAddrSpec where
  "listSpec = \<lparr>List = Some [Some \<lparr>IP = [192, 0, 2, 1]\<rparr>], Range = (None, None)\<rparr>"

definition listSet :: nfSet where
  "listSet = \<lparr>set' = Set0\<lparr>Anonymous := False, Set.Constant := True, Set.Name := ''set0'',
                            ID := 4465\<rparr>,
              elements = [SetElement0\<lparr>Key := [192, 0, 2, 1]\<rparr>]\<rparr>"

text \<open>A rule with a source list and a destination range, a protocol and no version, and
  what \<open>createL3\<close> compiles from it for IPv4.\<close>

definition rangeSpec :: IPAddrSpec where
  "rangeSpec = \<lparr>List = None,
                 Range = (Some \<lparr>IP = [10, 0, 0, 1]\<rparr>, Some \<lparr>IP = [10, 0, 0, 9]\<rparr>)\<rparr>"

definition bothRule :: Rule where
  "bothRule = \<lparr>L3 = Some \<lparr>Src = Some listSpec, Dst = Some rangeSpec, Version = None,
                           Protocol = Some 6\<rparr>,
               Exclude = False\<rparr>"

definition bothExprs :: "Expr list" where
  "bothExprs = [Payload 12 4, Lookup ''set0'' 4465 False,
                Payload 16 4, RangeCmp False [10, 0, 0, 1] [10, 0, 0, 9]]"

text \<open>The values of a composite key of an IPv4 address and a service: with the address
  as a 4-byte slice, and as the 16-byte slice \<open>net.ParseIP\<close> returns; and the elements
  \<open>MakeConcatElement\<close> makes of them.\<close>

definition fittingValues :: "ElementValue list" where
  "fittingValues = [ElementValue0\<lparr>IPAddr := Some [192, 0, 2, 1]\<rparr>,
                    ElementValue0\<lparr>InetService := Some 8080\<rparr>]"

definition fittingElement :: SetElement where
  "fittingElement = SetElement0\<lparr>Key := [192, 0, 2, 1, 31, 144, 0, 0]\<rparr>"

definition longValues :: "ElementValue list" where
  "longValues = [ElementValue0\<lparr>IPAddr := Some (v4InV6Prefix @ [192, 0, 2, 1])\<rparr>,
                 ElementValue0\<lparr>InetService := Some 8080\<rparr>]"

definition longElement :: SetElement where
  "longElement = SetElement0\<lparr>Key := v4InV6Prefix @ [192, 0, 2, 1, 31, 144, 0, 0]\<rparr>"

section \<open>Composite keys: \<open>MakeConcatElement\<close> and \<open>GenSetKeyType\<close>\<close>

lemma align4_roundUp4: "align4 n = roundUp4 n"
  unfolding align4_def roundUp4_def by presburger

lemma align4_dvd: "4 dvd align4 n"
  unfolding align4_def by presburger

lemma align4_idem: "4 dvd n \<Longrightarrow> align4 n = n"
  unfolding align4_def by presburger

lemma length_go_copy: "length (go_copy dst src) = length dst"
  unfolding go_copy_def by simp

lemma length_PutUint32: "length (PutUint32 v) = 4"
  by (simp add: PutUint32_def)

lemma length_PutUint16: "length (PutUint16 v) = 2"
  by (simp add: PutUint16_def)

text \<open>A component that encodes has the padded length recomputed from its datatype.\<close>

lemma processElementValue_length:
  assumes "processElementValue k v = Inr b"
  shows "length b = roundUp4 (encodedLen k v)"
proof -
  consider (int) "k = TypeInteger"
    | (mark) "k \<noteq> TypeInteger" "k = TypeMark"
    | (ip) "k \<noteq> TypeInteger" "k \<noteq> TypeMark" "k = TypeIPAddr \<or> k = TypeIP6Addr"
    | (ether) "k \<noteq> TypeInteger" "k \<noteq> TypeMark" "\<not> (k = TypeIPAddr \<or> k = TypeIP6Addr)"
        "k = TypeEtherAddr"
    | (proto) "k \<noteq> TypeInteger" "k \<noteq> TypeMark" "\<not> (k = TypeIPAddr \<or> k = TypeIP6Addr)"
        "k \<noteq> TypeEtherAddr" "k = TypeInetProto"
    | (service) "k \<noteq> TypeInteger" "k \<noteq> TypeMark" "\<not> (k = TypeIPAddr \<or> k = TypeIP6Addr)"
        "k \<noteq> TypeEtherAddr" "k \<noteq> TypeInetProto" "k = TypeInetService"
    | (other) "k \<noteq> TypeInteger" "k \<noteq> TypeMark" "\<not> (k = TypeIPAddr \<or> k = TypeIP6Addr)"
        "k \<noteq> TypeEtherAddr" "k \<noteq> TypeInetProto" "k \<noteq> TypeInetService"
    by blast
  then show ?thesis
  proof cases
    case int
    with assms show ?thesis
      by (auto simp: processElementValue_def encodedLen_def length_go_copy align4_roundUp4
            length_PutUint32 split: option.splits)
  next
    case mark
    with assms show ?thesis
      by (auto simp: processElementValue_def encodedLen_def length_go_copy align4_roundUp4
            length_PutUint32 split: option.splits)
  next
    case ip
    with assms show ?thesis
      by (auto simp: processElementValue_def encodedLen_def length_go_copy align4_roundUp4
            split: option.splits)
  next
    case ether
    with assms show ?thesis
      by (auto simp: processElementValue_def encodedLen_def length_go_copy align4_roundUp4
            split: option.splits)
  next
    case proto
    with assms show ?thesis
      by (auto simp: processElementValue_def encodedLen_def length_go_copy align4_roundUp4
            split: option.splits)
  next
    case service
    with assms show ?thesis
      by (auto simp: processElementValue_def encodedLen_def length_go_copy align4_roundUp4
            length_PutUint16 split: option.splits)
  next
    case other
    with assms show ?thesis
      by (simp add: processElementValue_def)
  qed
qed

text \<open>The loop adds, to both accumulators, the padded lengths of the components.\<close>

lemma concatLoop_length:
  "concatLoop ks vs key kl = Inr (key', kl') \<Longrightarrow> length ks = length vs \<Longrightarrow>
   kl' = kl + sum_list (map2 (\<lambda>k v. roundUp4 (encodedLen k v)) ks vs)
   \<and> length key' = length key + sum_list (map2 (\<lambda>k v. roundUp4 (encodedLen k v)) ks vs)"
proof (induction ks vs key kl rule: concatLoop.induct)
  case (1 vals key kl)
  then show ?case by simp
next
  case (2 k ks key kl)
  then show ?case by simp
next
  case (3 k ks v vs key kl)
  from "3.prems"(1) obtain b where b: "processElementValue k v = Inr b"
    and rest: "concatLoop ks vs (key @ b) (kl + length b) = Inr (key', kl')"
    by (auto split: sum.splits)
  from "3.prems"(2) have len: "length ks = length vs" by simp
  from "3.IH"[OF b rest len] processElementValue_length[OF b]
  show ?case by simp
qed

lemma roundUp4_sum_dvd: "4 dvd sum_list (map2 (\<lambda>k v. roundUp4 (encodedLen k v)) ks vs)"
proof (induction ks arbitrary: vs)
  case Nil
  show ?case by simp
next
  case (Cons k ks)
  show ?case
  proof (cases vs)
    case Nil
    then show ?thesis by simp
  next
    case (Cons v vs')
    have "4 dvd roundUp4 (encodedLen k v)" by (simp add: roundUp4_def)
    with Cons.IH[of vs'] Cons show ?thesis by simp
  qed
qed

text \<open>When a component's value fits its datatype, the encoding has the datatype's
  width.\<close>

lemma encodedLen_fitsWidth:
  assumes "processElementValue k v = Inr b" "fitsWidth k v"
  shows "encodedLen k v = unat (Bytes k)"
proof -
  consider (int) "k = TypeInteger"
    | (mark) "k \<noteq> TypeInteger" "k = TypeMark"
    | (ip) "k \<noteq> TypeInteger" "k \<noteq> TypeMark" "k = TypeIPAddr \<or> k = TypeIP6Addr"
    | (ether) "k \<noteq> TypeInteger" "k \<noteq> TypeMark" "\<not> (k = TypeIPAddr \<or> k = TypeIP6Addr)"
        "k = TypeEtherAddr"
    | (proto) "k \<noteq> TypeInteger" "k \<noteq> TypeMark" "\<not> (k = TypeIPAddr \<or> k = TypeIP6Addr)"
        "k \<noteq> TypeEtherAddr" "k = TypeInetProto"
    | (service) "k \<noteq> TypeInteger" "k \<noteq> TypeMark" "\<not> (k = TypeIPAddr \<or> k = TypeIP6Addr)"
        "k \<noteq> TypeEtherAddr" "k \<noteq> TypeInetProto" "k = TypeInetService"
    | (other) "k \<noteq> TypeInteger" "k \<noteq> TypeMark" "\<not> (k = TypeIPAddr \<or> k = TypeIP6Addr)"
        "k \<noteq> TypeEtherAddr" "k \<noteq> TypeInetProto" "k \<noteq> TypeInetService"
    by blast
  then show ?thesis
  proof cases
    case int
    then show ?thesis by (simp add: encodedLen_def) (simp add: TypeInteger_def)
  next
    case mark
    then show ?thesis by (simp add: encodedLen_def) (simp add: TypeMark_def)
  next
    case ip
    with assms(2) show ?thesis
      by (auto simp: encodedLen_def fitsWidth_def split: option.splits)
  next
    case ether
    with assms(2) show ?thesis
      by (auto simp: encodedLen_def fitsWidth_def split: option.splits)
  next
    case proto
    then have "encodedLen k v = 1" by (simp add: encodedLen_def)
    with proto show ?thesis by (simp add: TypeInetProto_def)
  next
    case service
    then have "encodedLen k v = 2" by (simp add: encodedLen_def)
    with service show ?thesis by (simp add: TypeInetService_def)
  next
    case other
    with assms(1) show ?thesis by (simp add: processElementValue_def)
  qed
qed

lemma concatLoop_width:
  "concatLoop ks vs key kl = Inr r \<Longrightarrow> list_all2 fitsWidth ks vs \<Longrightarrow>
   sum_list (map2 (\<lambda>k v. roundUp4 (encodedLen k v)) ks vs)
     = sum_list (map (\<lambda>k. roundUp4 (unat (Bytes k))) ks)"
proof (induction ks vs key kl rule: concatLoop.induct)
  case (1 vals key kl)
  then show ?case by simp
next
  case (2 k ks key kl)
  then show ?case by simp
next
  case (3 k ks v vs key kl)
  from "3.prems"(1) obtain b where b: "processElementValue k v = Inr b"
    and rest: "concatLoop ks vs (key @ b) (kl + length b) = Inr r"
    by (auto split: sum.splits)
  from "3.prems"(2) have f: "fitsWidth k v" and fs: "list_all2 fitsWidth ks vs" by simp_all
  from "3.IH"[OF b rest fs] encodedLen_fitsWidth[OF b f] show ?case by simp
qed

text \<open>
  The claim C3 as it is worded, with the padded length recomputed from the component
  datatypes, fails where an address is given as a slice longer than its datatype: the IPv4
  address 192.0.2.1 as the 16-byte slice of \<open>net.ParseIP\<close>, with a service, makes a key
  of 20 bytes, and the datatypes give 8.
\<close>

theorem MakeConcatElement_key_length_counterexample:
  "MakeConcatElement [TypeIPAddr, TypeInetService] longValues (Some \<lparr>verdict = None\<rparr>)
     = Inr longElement
   \<and> length (Key longElement) = 20
   \<and> expectedKeyLen [TypeIPAddr, TypeInetService] = 8
   \<and> length (Key longElement) \<noteq> expectedKeyLen [TypeIPAddr, TypeInetService]"
  by (simp add: MakeConcatElement_def processElementValue_def TypeIPAddr_def TypeInetService_def
       TypeInteger_def TypeMark_def TypeIP6Addr_def TypeEtherAddr_def TypeInetProto_def
       ElementValue0_def SetElement0_def go_copy_def align4_def PutUint16_def v4InV6Prefix_def
       longValues_def longElement_def expectedKeyLen_def roundUp4_def)

text \<open>
  Claim C3, amended.  Whenever \<open>MakeConcatElement\<close> succeeds, the length of the key of
  the element it returns is the sum, over the components, of the length of the component's
  encoding rounded up to the next multiple of 4, and that length is a multiple of 4; and
  when every address component (IPv4, IPv6 or link-layer) has exactly the width of its
  datatype, the padded length recomputed from the component datatypes is the length of
  the key.
\<close>

theorem MakeConcatElement_key_length_fitting:
  assumes "MakeConcatElement ks vs ra = Inr e"
  shows "length (Key e) = sum_list (map2 (\<lambda>k v. roundUp4 (encodedLen k v)) ks vs)
     \<and> 4 dvd length (Key e)
     \<and> (list_all2 fitsWidth ks vs \<longrightarrow> length (Key e) = expectedKeyLen ks)"
proof -
  from assms obtain a where ra: "ra = Some a"
    by (cases ra) (simp_all add: MakeConcatElement_def)
  from assms ra have len: "length ks = length vs"
    by (simp add: MakeConcatElement_def split: if_splits)
  from assms ra obtain key kl where loop: "concatLoop ks vs [] 0 = Inr (key, kl)"
    by (cases "concatLoop ks vs [] 0") (auto simp: MakeConcatElement_def split: if_splits)
  from assms ra len loop
  have e: "e = SetElement0\<lparr>Key := go_copy (replicate (align4 kl) 0) key,
                           VerdictData := verdict a\<rparr>"
    by (simp add: MakeConcatElement_def split: if_splits)
  from concatLoop_length[OF loop len]
  have kl: "kl = sum_list (map2 (\<lambda>k v. roundUp4 (encodedLen k v)) ks vs)" by simp
  have dvd: "4 dvd kl" unfolding kl by (rule roundUp4_sum_dvd)
  then have "align4 kl = kl" by (rule align4_idem)
  then have l: "length (Key e) = kl" by (simp add: e length_go_copy)
  have "length (Key e) = expectedKeyLen ks" if "list_all2 fitsWidth ks vs"
    using l kl concatLoop_width[OF loop that] by (simp add: expectedKeyLen_def)
  with l kl dvd show ?thesis by simp
qed

theorem MakeConcatElement_key_length_fitting_witness:
  "MakeConcatElement [TypeIPAddr, TypeInetService] fittingValues (Some \<lparr>verdict = None\<rparr>)
     = Inr fittingElement
   \<and> list_all2 fitsWidth [TypeIPAddr, TypeInetService] fittingValues
   \<and> length (Key fittingElement)
       = sum_list (map2 (\<lambda>k v. roundUp4 (encodedLen k v)) [TypeIPAddr, TypeInetService]
           fittingValues)
   \<and> length (Key fittingElement) = expectedKeyLen [TypeIPAddr, TypeInetService]
   \<and> expectedKeyLen [TypeIPAddr, TypeInetService] = 8
   \<and> 4 dvd length (Key fittingElement)"
proof -
  have h: "MakeConcatElement [TypeIPAddr, TypeInetService] fittingValues
             (Some \<lparr>verdict = None\<rparr>) = Inr fittingElement"
    by (simp add: MakeConcatElement_def processElementValue_def TypeIPAddr_def
          TypeInetService_def TypeInteger_def TypeMark_def TypeIP6Addr_def TypeEtherAddr_def
          TypeInetProto_def ElementValue0_def SetElement0_def go_copy_def align4_def
          PutUint16_def fittingValues_def fittingElement_def)
  have f: "list_all2 fitsWidth [TypeIPAddr, TypeInetService] fittingValues"
    by (simp add: fitsWidth_def fittingValues_def ElementValue0_def TypeIPAddr_def
          TypeInetService_def TypeIP6Addr_def TypeEtherAddr_def)
  have x: "expectedKeyLen [TypeIPAddr, TypeInetService] = 8"
    by (simp add: expectedKeyLen_def roundUp4_def TypeIPAddr_def TypeInetService_def)
  from MakeConcatElement_key_length_fitting [OF h] h f x show ?thesis by blast
qed

text \<open>
  Claim C4.  When the action is \<open>nil\<close>, or the list of key datatypes is empty, or its
  length differs from that of the list of values, \<open>MakeConcatElement\<close> returns one of its
  three validation errors, hence no element.
\<close>

theorem MakeConcatElement_validation:
  "ra = None \<or> ks = [] \<or> length ks \<noteq> length vs \<Longrightarrow>
   \<exists>err. MakeConcatElement ks vs ra = Inl err \<and> err \<in> {VerdictNil, NoKeys, KeysValsMismatch}"
  by (auto simp: MakeConcatElement_def split: option.splits)

theorem MakeConcatElement_validation_witness:
  "(\<exists>err. MakeConcatElement [TypeIPAddr, TypeInetService] [ElementValue0] (Some \<lparr>verdict = None\<rparr>)
            = Inl err \<and> err \<in> {VerdictNil, NoKeys, KeysValsMismatch})
   \<and> (\<exists>err. MakeConcatElement [] [] (Some \<lparr>verdict = None\<rparr>)
            = Inl err \<and> err \<in> {VerdictNil, NoKeys, KeysValsMismatch})
   \<and> (\<exists>err. MakeConcatElement [TypeIPAddr] [ElementValue0] None
            = Inl err \<and> err \<in> {VerdictNil, NoKeys, KeysValsMismatch})"
  using MakeConcatElement_validation [of "Some \<lparr>verdict = None\<rparr>"
          "[TypeIPAddr, TypeInetService]" "[ElementValue0]"]
        MakeConcatElement_validation [of "Some \<lparr>verdict = None\<rparr>" "[]" "[]"]
        MakeConcatElement_validation [of None "[TypeIPAddr]" "[ElementValue0]"]
  by simp

text \<open>What the loop of \<open>GenSetKeyType\<close> does to the name: every component adds an
  underscore, its name twice, and an underscore.\<close>

lemma genLoop_name:
  "i + length ts \<le> n \<Longrightarrow>
   fst (genLoop n ts i (name, c, b))
     = name @ concat (map (\<lambda>t. ''_'' @ SetDatatype.Name t @ SetDatatype.Name t @ ''_'') ts)"
proof (induction ts arbitrary: i name c b)
  case Nil
  then show ?case by simp
next
  case (Cons t ts)
  then show ?case by (simp add: Let_def)
qed

lemma GenSetKeyType_name:
  assumes "2 \<le> length types"
  shows "SetDatatype.Name (GenSetKeyType types)
     = ''concat'' @ concat (map (\<lambda>t. ''_'' @ SetDatatype.Name t @ SetDatatype.Name t @ ''_'') types)"
proof -
  from assms obtain t u ts where types: "types = t # u # ts"
    by (cases types; cases "tl types") auto
  obtain name c b where g: "genLoop (length types) types 0 (''concat'', 0, 0) = (name, c, b)"
    by (cases "genLoop (length types) types 0 (''concat'', 0, 0)") auto
  from genLoop_name[of 0 types "length types" "''concat''" 0 0] g
  have "name = ''concat''
      @ concat (map (\<lambda>t. ''_'' @ SetDatatype.Name t @ SetDatatype.Name t @ ''_'') types)"
    by simp
  with g types show ?thesis by (simp add: GenSetKeyType_def del: genLoop.simps)
qed

text \<open>For no list of two or more datatypes is the name the joined one of the spec: it is
  longer, by the length of every component name and one more underscore each.\<close>

lemma joinedName_two:
  "joinedName [t, u] = ''concat_'' @ SetDatatype.Name t @ ''_'' @ SetDatatype.Name u"
  by (simp add: joinedName_def)

lemma length_doubled:
  "length (concat (map (\<lambda>t. ''_'' @ SetDatatype.Name t @ SetDatatype.Name t @ ''_'') ts))
     = length (concat (map (\<lambda>t. ''_'' @ SetDatatype.Name t) ts))
       + sum_list (map (\<lambda>t. length (SetDatatype.Name t) + 1) ts)"
  by (induction ts) simp_all

lemma GenSetKeyType_name_never_joined:
  assumes "2 \<le> length types"
  shows "SetDatatype.Name (GenSetKeyType types) \<noteq> joinedName types"
proof -
  from assms obtain t ts where types: "types = t # ts" by (cases types) auto
  have "length (SetDatatype.Name (GenSetKeyType types))
      = length (joinedName types)
        + sum_list (map (\<lambda>t. length (SetDatatype.Name t) + 1) types)"
    using length_doubled[of types] by (simp add: GenSetKeyType_name[OF assms] joinedName_def)
  moreover have "0 < sum_list (map (\<lambda>t. length (SetDatatype.Name t) + 1) types)"
    by (simp add: types)
  ultimately show ?thesis by auto
qed

text \<open>
  Claim C2, at the datatypes of an IPv4 address and of a service: the claim names the
  composite \<open>concat_ipv4_addr_inet_service\<close>; \<open>GenSetKeyType\<close> returns another name, in
  which each component name stands twice and an underscore more follows it.
\<close>

theorem GenSetKeyType_name_at_two:
  "SetDatatype.Name (GenSetKeyType [TypeIPAddr, TypeInetService])
     = ''concat_ipv4_addripv4_addr__inet_serviceinet_service_''
   \<and> SetDatatype.Name (GenSetKeyType [TypeIPAddr, TypeInetService])
     \<noteq> ''concat_'' @ SetDatatype.Name TypeIPAddr @ ''_'' @ SetDatatype.Name TypeInetService"
  by (simp add: GenSetKeyType_def TypeIPAddr_def TypeInetService_def Let_def)

section \<open>The set store: \<open>CreateSet\<close> and the set identifiers\<close>

text \<open>Whatever the attributes, the call of \<open>AddSet\<close> that \<open>CreateSet\<close> makes receives
  the caller's elements and nothing else.\<close>

lemma CreateSet_AddSet_args:
  assumes "CreateSet f attrs els (w, c, nfs) = Some (res, w', c', nfs')"
  shows "\<exists>s. calls c' = calls c @ [AddSetCall s els]
            \<or> calls c' = calls c @ [AddSetCall s els, FlushCall]"
  using assms
  by (auto simp: CreateSet_def AddSet_def Flush_def Let_def Lock_def
           split: prod.splits option.splits if_splits)

text \<open>
  Claim C1, at an interval set of IPv4 addresses created with one element in an IPv4
  table: the claim makes the element sequence handed to the connection's add-set operation
  begin with the end-of-interval element of key 0.0.0.0; \<open>CreateSet\<close> hands over the
  caller's element alone.
\<close>

theorem CreateSet_interval_no_sentinel:
  "\<exists>w' c' nfs'.
     CreateSet exampleIntn intervalAttrs [userElement] (exampleWorld, exampleConn, newSets tableV4)
       = Some (Inr blockedSet, w', c', nfs')
     \<and> calls c' = [AddSetCall blockedSet [userElement], FlushCall]
     \<and> [userElement] \<noteq> SetElement0\<lparr>Key := zeroIPv4, IntervalEnd := True\<rparr> # [userElement]"
  by (simp add: CreateSet_def AddSet_def Flush_def Lock_def Unlock_def exampleIntn_def
        exampleWorld_def exampleConn_def newSets_def intervalAttrs_def blockedSet_def tableV4_def
        Let_def Set0_def)

lemma word_of_int_small:
  assumes "0 \<le> r" "r < 65535"
  shows "unat (word_of_int r :: uint32) \<le> 65534"
proof -
  have "uint (word_of_int r :: uint32) = r mod 2 ^ 32"
    by (simp add: uint_word_of_int take_bit_eq_mod)
  also from assms have "\<dots> = r" by simp
  finally have "unat (word_of_int r :: uint32) = nat r" by (simp add: unat_eq_nat_uint)
  with assms show ?thesis by simp
qed

text \<open>
  Claim C9.  With a random source that keeps the contract of \<open>rand.Intn\<close>, the identifier
  of the set \<open>CreateSet\<close> returns, and that of the lookup set \<open>processAddrList\<close> builds,
  is at most 65534.
\<close>

theorem set_ID_range:
  assumes "Intn_contract f"
  shows "(CreateSet f attrs els st = Some (Inr s, st') \<longrightarrow> unat (ID s) \<le> 65534)
       \<and> (Intn H = f \<longrightarrow>
             processAddrList H l3proto offset lst excl w = (Inr (re, Some nfset), w') \<longrightarrow>
             unat (ID (set' nfset)) \<le> 65534)"
proof (intro conjI impI)
  assume h: "CreateSet f attrs els st = Some (Inr s, st')"
  obtain w0 c nfs where st: "st = (w0, c, nfs)" by (cases st) auto
  obtain r rs where d: "f (randState w0) 0xffff = (r, rs)"
    by (cases "f (randState w0) 0xffff") auto
  from assms d have r: "0 \<le> r" "r < 65535"
    using Intn_contract_def[of f] by (metis fst_conv zero_less_numeral)+
  from h st d have "ID s = word_of_int r"
    by (auto simp: CreateSet_def AddSet_def Flush_def Let_def Lock_def
             split: prod.splits option.splits if_splits)
  with word_of_int_small[OF r] show "unat (ID s) \<le> 65534" by simp
next
  assume H: "Intn H = f"
    and h: "processAddrList H l3proto offset lst excl w = (Inr (re, Some nfset), w')"
  obtain r rs where d: "f (randState w) 0xffff = (r, rs)"
    by (cases "f (randState w) 0xffff") auto
  from assms d have r: "0 \<le> r" "r < 65535"
    using Intn_contract_def[of f] by (metis fst_conv zero_less_numeral)+
  from h H d have "ID (set' nfset) = word_of_int r"
    by (auto simp: processAddrList_def Let_def split: prod.splits sum.splits if_splits)
  with word_of_int_small[OF r] show "unat (ID (set' nfset)) \<le> 65534" by simp
qed

theorem set_ID_range_witness:
  "Intn_contract exampleIntn
   \<and> CreateSet exampleIntn intervalAttrs [userElement] (exampleWorld, exampleConn, newSets tableV4)
       = Some (Inr blockedSet, exampleWorld\<lparr>randState := 70001\<rparr>,
               exampleConn\<lparr>calls := [AddSetCall blockedSet [userElement], FlushCall]\<rparr>,
               (newSets tableV4)\<lparr>sets := [''blocked'' \<mapsto> blockedSet]\<rparr>)
   \<and> unat (ID blockedSet) \<le> 65534
   \<and> Intn exampleEnv = exampleIntn
   \<and> processAddrList exampleEnv TableFamilyIPv4 12 [Some \<lparr>IP = [192, 0, 2, 1]\<rparr>] False
         exampleWorld
       = (Inr ([Payload 12 4, Lookup ''set0'' 4465 False], Some listSet),
          exampleWorld\<lparr>randState := 70001, nameState := 1\<rparr>)
   \<and> unat (ID (set' listSet)) \<le> 65534"
proof -
  have c: "Intn_contract exampleIntn"
    by (simp add: Intn_contract_def exampleIntn_def)
  have a: "CreateSet exampleIntn intervalAttrs [userElement]
             (exampleWorld, exampleConn, newSets tableV4)
       = Some (Inr blockedSet, exampleWorld\<lparr>randState := 70001\<rparr>,
               exampleConn\<lparr>calls := [AddSetCall blockedSet [userElement], FlushCall]\<rparr>,
               (newSets tableV4)\<lparr>sets := [''blocked'' \<mapsto> blockedSet]\<rparr>)"
    by (simp add: CreateSet_def AddSet_def Flush_def Lock_def Unlock_def exampleIntn_def
          exampleWorld_def exampleConn_def newSets_def intervalAttrs_def blockedSet_def tableV4_def
          Let_def Set0_def)
  have e: "Intn exampleEnv = exampleIntn" by (simp add: exampleEnv_def)
  have b: "processAddrList exampleEnv TableFamilyIPv4 12 [Some \<lparr>IP = [192, 0, 2, 1]\<rparr>] False
             exampleWorld
       = (Inr ([Payload 12 4, Lookup ''set0'' 4465 False], Some listSet),
          exampleWorld\<lparr>randState := 70001, nameState := 1\<rparr>)"
    by (simp add: processAddrList_def exampleEnv_def exampleWorld_def exampleIntn_def
          spec_getExprForListIPV2_def To4_def Let_def Set0_def listSet_def
          TableFamilyIPv4_def TableFamilyIPv6_def)
  from set_ID_range [OF c, of intervalAttrs "[userElement]" _ blockedSet _ exampleEnv] a e b c
  show ?thesis by blast
qed

text \<open>A kernel set that the store does not hold blocks \<open>nfSets.Sync\<close>: the second
  \<open>Lock\<close> finds the mutex held by the first.\<close>

lemma setsSyncLoop_new_set_blocks:
  "sets nfs (Set.Name s) = None \<Longrightarrow> setsSyncLoop (s # ss) nfs = None"
  by (simp add: Lock_def Let_def)

section \<open>The table store: \<open>Create\<close>, \<open>Exist\<close> and \<open>Sync\<close>\<close>

lemma lookupTable_updates [simp]:
  "lookupTable (nft\<lparr>conn := c\<rparr>) f n = lookupTable nft f n"
  "lookupTable (nft\<lparr>nfTables.Mutex := m\<rparr>) f n = lookupTable nft f n"
  by (simp_all add: lookupTable_def)

lemma lookupTable_allocTable:
  "lookupTable (snd (allocTable nc name fam bucket nft)) f n
     = (if f = fam
        then (if n = name then Some (fst (allocTable nc name fam bucket nft)) else bucket n)
        else lookupTable nft f n)"
  by (simp add: allocTable_def lookupTable_def Let_def)

text \<open>\<open>create\<close> changes the registry at the pair it is called for, at most, and the
  record it returns is the one the registry then holds there.\<close>

lemma lookupTable_create:
  "lookupTable (snd (create nc name fam nft)) f n
     = (if f = fam \<and> n = name then Some (fst (create nc name fam nft)) else lookupTable nft f n)"
proof (cases "tables nft fam")
  case None
  then have "create nc name fam nft = allocTable nc name fam Map.empty nft"
    by (simp add: create_def)
  with None show ?thesis by (simp add: lookupTable_allocTable) (simp add: lookupTable_def)
next
  case (Some bucket)
  show ?thesis
  proof (cases "\<exists>r. bucket name = Some r \<and> ChainsInterface r \<noteq> None
                    \<and> SetsInterface r \<noteq> None")
    case True
    then obtain r where "bucket name = Some r" "ChainsInterface r \<noteq> None"
        "SetsInterface r \<noteq> None"
      by blast
    with Some have "create nc name fam nft = (r, nft)" by (simp add: create_def)
    with Some \<open>bucket name = Some r\<close> show ?thesis by (simp add: lookupTable_def)
  next
    case False
    with Some have "create nc name fam nft = allocTable nc name fam bucket nft"
      by (auto simp: create_def split: option.splits)
    with Some show ?thesis by (simp add: lookupTable_allocTable) (simp add: lookupTable_def)
  qed
qed









text \<open>With the mutex held, \<open>Create\<close> does not return.\<close>

lemma Create_blocks: "nfTables.Mutex nft \<Longrightarrow> Create nc name fam nft = None"
  by (simp add: Create_def Lock_def)

text \<open>
  Claim C10.  For a name and family that the registry does not hold, when the connection's
  list-tables query returns an error, \<open>Exist\<close> returns false.
\<close>

theorem Exist_kernel_error:
  "lookupTable nft familyType name = None \<Longrightarrow> ListTables (conn nft) = Inl err \<Longrightarrow>
   Exist nft name familyType = False"
  by (simp add: Exist_def get_def)

theorem Exist_kernel_error_witness:
  "lookupTable failingStore TableFamilyIPv4 ''filter-v4'' = None
   \<and> ListTables (conn failingStore) = Inl (ConnError ''netlink receive'')
   \<and> Exist failingStore ''filter-v4'' TableFamilyIPv4 = False"
proof -
  have a: "lookupTable failingStore TableFamilyIPv4 ''filter-v4'' = None"
    by (simp add: lookupTable_def failingStore_def exampleStore_def)
  have b: "ListTables (conn failingStore) = Inl (ConnError ''netlink receive'')"
    by (simp add: ListTables_def failingStore_def failingConn_def)
  from Exist_kernel_error [OF a b] a b show ?thesis by simp
qed

lemma lookupTable_storeTable:
  "lookupTable (storeTable fam name r nft) f n
     = (if f = fam \<and> n = name then Some r else lookupTable nft f n)"
  by (auto simp: storeTable_def lookupTable_def split: option.splits)

text \<open>The body of the loop of \<open>Sync\<close> leaves every entry but the kernel table's own as
  it was.\<close>

lemma syncTable_frame:
  assumes "syncTable nc cs t nft = Some (res, nft1)"
    and "(f, n) \<noteq> (Family t, Table.Name t)"
  shows "lookupTable nft1 f n = lookupTable nft f n"
proof -
  obtain nt nft0 where c: "create nc (Table.Name t) (Family t) nft = (nt, nft0)"
    by (cases "create nc (Table.Name t) (Family t) nft") auto
  have l0: "lookupTable nft0 f n = lookupTable nft f n"
    using lookupTable_create[of nc "Table.Name t" "Family t" nft f n] c assms(2) by auto
  from assms(1) c have "lookupTable nft1 f n = lookupTable nft0 f n"
    using assms(2)
    by (auto simp: syncTable_def Let_def lookupTable_storeTable
             split: option.splits prod.splits)
  with l0 show ?thesis by simp
qed

lemma syncLoop_only_adds:
  assumes "syncLoop nc cs fam ts nft = Some (res, nft')"
  shows "(lookupTable nft f n = Some r \<longrightarrow> lookupTable nft' f n = Some r)
       \<and> (lookupTable nft f n = None \<longrightarrow> lookupTable nft' f n \<noteq> None \<longrightarrow>
            f = fam \<and> (\<exists>t \<in> list.set ts. Family t = fam \<and> Table.Name t = n))"
  using assms
proof (induction ts arbitrary: nft)
  case Nil
  then show ?case by simp
next
  case (Cons t ts)
  show ?case
  proof (cases "Family t = fam \<and> lookupTable nft fam (Table.Name t) = None")
    case False
    with Cons.prems have "syncLoop nc cs fam ts nft = Some (res, nft')"
      by (auto split: option.splits)
    from Cons.IH[OF this] show ?thesis by auto
  next
    case True
    with Cons.prems obtain res1 nft1 where st: "syncTable nc cs t nft = Some (res1, nft1)"
      by (cases "syncTable nc cs t nft") (auto split: option.splits)
    have frame: "\<And>f' n'. (f', n') \<noteq> (fam, Table.Name t) \<Longrightarrow>
        lookupTable nft1 f' n' = lookupTable nft f' n'"
      using syncTable_frame[OF st] True by simp
    show ?thesis
    proof (cases res1)
      case (Some err)
      with Cons.prems True st have "nft' = nft1" by simp
      with frame True show ?thesis by (cases "(f, n) = (fam, Table.Name t)") auto
    next
      case None
      with Cons.prems True st have rec: "syncLoop nc cs fam ts nft1 = Some (res, nft')"
        by simp
      from Cons.IH[OF rec] frame True show ?thesis
        by (cases "(f, n) = (fam, Table.Name t)") auto
    qed
  qed
qed

text \<open>
  Claim C8.  Whenever \<open>Sync\<close> returns, with or without an error, every record the
  registry held before is still held, unchanged, at the same family and name; and an entry
  that is new is of the family synchronised and bears the name of a table of that family
  which the kernel reported.
\<close>

theorem Sync_only_adds:
  assumes "Sync nc cs fam nft = Some (res, nft')"
  shows "(\<forall>f n r. lookupTable nft f n = Some r \<longrightarrow> lookupTable nft' f n = Some r)
       \<and> (\<forall>f n. lookupTable nft f n = None \<longrightarrow> lookupTable nft' f n \<noteq> None \<longrightarrow>
            f = fam \<and> (\<exists>ts t. ListTables (conn nft) = Inr ts \<and> t \<in> list.set ts
                          \<and> Family t = fam \<and> Table.Name t = n))"
proof (cases "ListTables (conn nft)")
  case (Inl err)
  with assms have "nft' = nft\<lparr>nfTables.Mutex := True\<rparr>"
    by (auto simp: Sync_def Lock_def split: if_splits)
  then show ?thesis by simp
next
  case (Inr ts)
  with assms have loop:
    "syncLoop nc cs fam ts (nft\<lparr>nfTables.Mutex := False\<rparr>) = Some (res, nft')"
    by (auto simp: Sync_def Lock_def Unlock_def split: if_splits)
  show ?thesis
  proof (intro conjI allI impI)
    fix f n r
    assume "lookupTable nft f n = Some r"
    with syncLoop_only_adds[OF loop, of f n r] show "lookupTable nft' f n = Some r" by simp
  next
    fix f n
    assume "lookupTable nft f n = None" "lookupTable nft' f n \<noteq> None"
    with syncLoop_only_adds[OF loop, of f n undefined] Inr
    show "f = fam" by simp
  next
    fix f n
    assume "lookupTable nft f n = None" "lookupTable nft' f n \<noteq> None"
    with syncLoop_only_adds[OF loop, of f n undefined] Inr
    show "\<exists>ts t. ListTables (conn nft) = Inr ts \<and> t \<in> list.set ts \<and> Family t = fam
            \<and> Table.Name t = n"
      by auto
  qed
qed

theorem Sync_only_adds_witness:
  "Sync (\<lambda>t. ()) exampleChainsSync TableFamilyIPv4 localStore = Some (None, syncedStore)
   \<and> lookupTable localStore TableFamilyIPv4 ''local-only'' = Some localRecord
   \<and> lookupTable syncedStore TableFamilyIPv4 ''local-only'' = Some localRecord
   \<and> lookupTable localStore TableFamilyIPv4 ''filter-v4'' = None
   \<and> lookupTable syncedStore TableFamilyIPv4 ''filter-v4'' = Some syncedRecord
   \<and> (\<exists>ts t. ListTables (conn localStore) = Inr ts \<and> t \<in> list.set ts
          \<and> Family t = TableFamilyIPv4 \<and> Table.Name t = ''filter-v4'')"
proof -
  have h: "Sync (\<lambda>t. ()) exampleChainsSync TableFamilyIPv4 localStore
             = Some (None, syncedStore)"
    by (simp add: Sync_def Lock_def Unlock_def ListTables_def localStore_def kernelConn_def
          exampleConn_def tableV4_def lookupTable_def TableFamilyIPv4_def syncTable_def
          create_def allocTable_def exampleChainsSync_def storeTable_def nfSets_Sync_def
          GetSets_def newSets_def Table0_def syncedStore_def syncedRecord_def Let_def
          fun_upd_twist)
  have l: "lookupTable localStore TableFamilyIPv4 ''local-only'' = Some localRecord"
    "lookupTable localStore TableFamilyIPv4 ''filter-v4'' = None"
    "lookupTable syncedStore TableFamilyIPv4 ''filter-v4'' = Some syncedRecord"
    by (simp_all add: lookupTable_def localStore_def syncedStore_def)
  from Sync_only_adds [OF h] l(1)
  have kept: "lookupTable syncedStore TableFamilyIPv4 ''local-only'' = Some localRecord"
    by blast
  from Sync_only_adds [OF h] l(2,3)
  have new: "\<exists>ts t. ListTables (conn localStore) = Inr ts \<and> t \<in> list.set ts
          \<and> Family t = TableFamilyIPv4 \<and> Table.Name t = ''filter-v4''"
    by (metis option.distinct(1))
  from h l kept new show ?thesis by blast
qed

section \<open>The L3 address compiler: families and offsets\<close>

text \<open>
  What \<open>processAddrList\<close> itself does with a family outside IPv4 and IPv6, whatever the
  list builder is: its guard rejects the family when the list is empty, and for a list
  that is not empty the result is the builder's.  The guard rejects an empty list for
  every family, IPv4 included.
\<close>

lemma processAddrList_other_family:
  assumes "l3proto \<noteq> TableFamilyIPv4" "l3proto \<noteq> TableFamilyIPv6"
  shows "fst (processAddrList H l3proto offset lst excl w)
     = (if lst = [] then Inl (UnknownTableFamily l3proto)
        else (case getExprForListIPV2 H l3proto
                     (Set0\<lparr>Anonymous := False, Set.Constant := True,
                           Set.Name := fst (getSetName H (nameState w)),
                           ID := word_of_int (fst (Intn H (randState w) 0xffff))\<rparr>) offset excl of
                Inl err \<Rightarrow> Inl err
              | Inr re \<Rightarrow>
                  Inr (re, Some \<lparr>set' = Set0\<lparr>Anonymous := False, Set.Constant := True,
                                   Set.Name := fst (getSetName H (nameState w)),
                                   ID := word_of_int (fst (Intn H (randState w) 0xffff))\<rparr>,
                                 elements = replicate (length lst) SetElement0\<rparr>)))"
  using assms
  by (auto simp: processAddrList_def Let_def split: prod.splits sum.splits)

lemma processAddrList_empty_list:
  "fst (processAddrList H l3proto offset [] excl w) = Inl (UnknownTableFamily l3proto)"
  by (auto simp: processAddrList_def Let_def split: prod.splits sum.splits)

text \<open>With the builders of the spec, a populated specification of another family is
  rejected: by the guard when its list is empty, by a builder otherwise.\<close>

lemma processIPAddr_rejects_family:
  assumes "l3proto \<noteq> TableFamilyIPv4" "l3proto \<noteq> TableFamilyIPv6" "populated addrs"
  shows "fst (processIPAddr (withSpecBuilders H) l3proto addrs src excl w)
           \<in> {Inl (UnknownTableFamily l3proto), Inl (UnsupportedFamily l3proto)}"
proof (cases "IPAddrSpec.List addrs")
  case (Some lst)
  have "fst (processAddrList (withSpecBuilders H) l3proto 0 lst excl w)
          \<in> {Inl (UnknownTableFamily l3proto), Inl (UnsupportedFamily l3proto)}"
    using assms(1,2)
    by (simp add: processAddrList_other_family withSpecBuilders_def spec_getExprForListIPV2_def)
  with Some assms(1,2) show ?thesis
    by (auto simp: processIPAddr_def split: prod.splits sum.splits)
next
  case None
  with assms(3) obtain lo hi where r: "IPAddrSpec.Range addrs = (Some lo, Some hi)"
    by (cases "IPAddrSpec.Range addrs") (auto simp: populated_def)
  with None assms(1,2) show ?thesis
    by (simp add: processIPAddr_def processAddrRange_def withSpecBuilders_def
          spec_getExprForRangeIP_def)
qed

text \<open>
  Claim C5.  With the two address builders of the spec, compiling a populated address
  specification (a list that is not \<open>nil\<close>, or a range with both ends) for a family that
  is neither IPv4 nor IPv6 fails, with the unknown-family error of \<open>processAddrList\<close> or
  the unsupported-family error of the builders.
\<close>

theorem processIPAddr_unsupported_family:
  assumes "l3proto \<noteq> TableFamilyIPv4" "l3proto \<noteq> TableFamilyIPv6" "populated addrs"
  shows "fst (processIPAddr (withSpecBuilders H) l3proto addrs src excl w)
           \<in> {Inl (UnknownTableFamily l3proto), Inl (UnsupportedFamily l3proto)}"
proof (cases "IPAddrSpec.List addrs")
  case (Some lst)
  show ?thesis
  proof (cases "lst = []")
    case True
    have "fst (processAddrList (withSpecBuilders H) l3proto 0 lst excl w)
            = Inl (UnknownTableFamily l3proto)"
      unfolding True by (rule processAddrList_empty_list)
    with Some assms(1,2) show ?thesis
      by (auto simp: processIPAddr_def split: prod.splits sum.splits)
  next
    case False
    with assms(1,2)
    have "fst (processAddrList (withSpecBuilders H) l3proto 0 lst excl w)
            = Inl (UnsupportedFamily l3proto)"
      by (simp add: processAddrList_other_family withSpecBuilders_def
            spec_getExprForListIPV2_def)
    with Some assms(1,2) show ?thesis
      by (auto simp: processIPAddr_def split: prod.splits sum.splits)
  qed
next
  case None
  with assms(3) obtain lo hi where r: "IPAddrSpec.Range addrs = (Some lo, Some hi)"
    by (cases "IPAddrSpec.Range addrs") (auto simp: populated_def)
  from assms(1,2) have "spec_getExprForRangeIP l3proto 0 (Some lo, Some hi) excl
      = Inl (UnsupportedFamily l3proto)"
    by (simp add: spec_getExprForRangeIP_def)
  with None r assms(1,2) show ?thesis
    by (simp add: processIPAddr_def processAddrRange_def withSpecBuilders_def)
qed

theorem processIPAddr_unsupported_family_witness:
  "TableFamilyINet \<noteq> TableFamilyIPv4 \<and> TableFamilyINet \<noteq> TableFamilyIPv6 \<and> populated listSpec
   \<and> fst (processIPAddr (withSpecBuilders exampleEnv) TableFamilyINet listSpec True False
            exampleWorld)
       \<in> {Inl (UnknownTableFamily TableFamilyINet), Inl (UnsupportedFamily TableFamilyINet)}"
proof -
  have a: "TableFamilyINet \<noteq> TableFamilyIPv4" "TableFamilyINet \<noteq> TableFamilyIPv6"
    by (simp_all add: TableFamilyINet_def TableFamilyIPv4_def TableFamilyIPv6_def)
  have p: "populated listSpec" by (simp add: populated_def listSpec_def)
  from processIPAddr_unsupported_family [OF a p] a p show ?thesis by blast
qed

text \<open>A specification that is not populated compiles to nothing, for every family; and a
  rule of another family with a populated source or destination fails in \<open>createL3\<close>, at
  the address or before it.\<close>

lemma processIPAddr_unpopulated:
  "\<not> populated addrs \<Longrightarrow> processIPAddr H l3proto addrs src excl w = (Inr ([], []), w)"
  by (cases "IPAddrSpec.Range addrs"; cases "fst (IPAddrSpec.Range addrs)";
      cases "snd (IPAddrSpec.Range addrs)")
     (auto simp: populated_def processIPAddr_def split: if_splits)

lemma createL3_unsupported_family:
  assumes f: "l3proto \<noteq> TableFamilyIPv4" "l3proto \<noteq> TableFamilyIPv6"
    and l3: "L3 rule = Some l3"
    and pop: "(\<exists>a. Src l3 = Some a \<and> populated a) \<or> (\<exists>a. Dst l3 = Some a \<and> populated a)"
  shows "\<exists>err. fst (createL3 (withSpecBuilders H) l3proto rule w) = Inl err"
proof -
  let ?H = "withSpecBuilders H"
  have fail: "\<And>a src w. populated a \<Longrightarrow>
      \<exists>err w'. processIPAddr ?H l3proto a src (Exclude rule) w = (Inl err, w')"
  proof -
    fix a src w assume "populated a"
    from processIPAddr_rejects_family[OF f this, of H src "Exclude rule" w]
    show "\<exists>err w'. processIPAddr ?H l3proto a src (Exclude rule) w = (Inl err, w')"
      by (cases "processIPAddr ?H l3proto a src (Exclude rule) w") auto
  qed
  show ?thesis
  proof (cases "case Version l3 of None \<Rightarrow> Inr [] | Some v \<Rightarrow>
                  (case processVersion ?H v (Exclude rule) of Inl err \<Rightarrow> Inl err
                   | Inr (e, _) \<Rightarrow> Inr ([] @ e))")
    case (Inl err)
    with l3 show ?thesis by (simp add: createL3_def)
  next
    case v: (Inr re1)
    show ?thesis
    proof (cases "case Protocol l3 of None \<Rightarrow> Inr re1 | Some p \<Rightarrow>
                  (case processProtocol ?H l3proto p (Exclude rule) of Inl err \<Rightarrow> Inl err
                   | Inr (e, _) \<Rightarrow> Inr (re1 @ e))")
      case (Inl err)
      with l3 v show ?thesis by (simp add: createL3_def)
    next
      case p: (Inr re2)
      show ?thesis
      proof (cases "Src l3")
        case None
        with pop obtain a where d: "Dst l3 = Some a" "populated a" by auto
        from fail[OF d(2), of False w] obtain err w' where
          "processIPAddr ?H l3proto a False (Exclude rule) w = (Inl err, w')" by blast
        with l3 v p None d show ?thesis by (simp add: createL3_def)
      next
        case (Some a)
        obtain r1 w1 where s: "processIPAddr ?H l3proto a True (Exclude rule) w = (r1, w1)"
          by (metis surj_pair)
        show ?thesis
        proof (cases r1)
          case (Inl err)
          with l3 v p Some s show ?thesis by (simp add: createL3_def)
        next
          case (Inr x)
          then obtain e ss where x: "r1 = Inr (e, ss)" by (cases x) auto
          have "\<not> populated a"
          proof
            assume "populated a"
            from fail[OF this, of True w] s x show False by simp
          qed
          with pop Some obtain b where d: "Dst l3 = Some b" "populated b" by auto
          from fail[OF d(2), of False w1] obtain err w' where
            "processIPAddr ?H l3proto b False (Exclude rule) w1 = (Inl err, w')" by blast
          with l3 v p Some s x d show ?thesis by (simp add: createL3_def)
        qed
      qed
    qed
  qed
qed

text \<open>The callees of an environment fixed to an offset: the two address builders see
  that offset, the others are untouched.\<close>

lemma atOffset_sel:
  "getSetName (atOffset n H) = getSetName H"
  "Intn (atOffset n H) = Intn H"
  "getExprForIPVersion (atOffset n H) = getExprForIPVersion H"
  "getExprForProtocol (atOffset n H) = getExprForProtocol H"
  "getExprForListIPV2 (atOffset n H) l3proto s offset = getExprForListIPV2 H l3proto s n"
  "getExprForRangeIP (atOffset n H) l3proto offset = getExprForRangeIP H l3proto n"
  by (simp_all add: atOffset_def)

lemma processAddrList_atOffset:
  "processAddrList (atOffset n H) l3proto offset lst excl w
     = processAddrList H l3proto n lst excl w"
  unfolding processAddrList_def atOffset_sel by (rule refl)

lemma processAddrRange_atOffset:
  "processAddrRange (atOffset n H) l3proto offset rng excl
     = processAddrRange H l3proto n rng excl"
  unfolding processAddrRange_def atOffset_sel by (rule refl)

lemma processVersion_atOffset: "processVersion (atOffset n H) = processVersion H"
  by (simp add: processVersion_def atOffset_def fun_eq_iff)

lemma processProtocol_atOffset: "processProtocol (atOffset n H) = processProtocol H"
  by (simp add: processProtocol_def atOffset_def fun_eq_iff)

lemma v6_not_v4: "TableFamilyIPv6 \<noteq> TableFamilyIPv4"
  by (simp add: TableFamilyIPv6_def TableFamilyIPv4_def)

lemma processIPAddr_v4_src:
  "processIPAddr H TableFamilyIPv4 addrs True excl w
     = processIPAddr (atOffset 12 H) TableFamilyIPv4 addrs True excl w"
  unfolding processIPAddr_def processAddrList_atOffset processAddrRange_atOffset
  by simp

lemma processIPAddr_v4_dst:
  "processIPAddr H TableFamilyIPv4 addrs False excl w
     = processIPAddr (atOffset 16 H) TableFamilyIPv4 addrs False excl w"
  unfolding processIPAddr_def processAddrList_atOffset processAddrRange_atOffset
  by simp

lemma processIPAddr_v6_src:
  "processIPAddr H TableFamilyIPv6 addrs True excl w
     = processIPAddr (atOffset 8 H) TableFamilyIPv6 addrs True excl w"
  unfolding processIPAddr_def processAddrList_atOffset processAddrRange_atOffset
  by (simp add: v6_not_v4)

lemma processIPAddr_v6_dst:
  "processIPAddr H TableFamilyIPv6 addrs False excl w
     = processIPAddr (atOffset 24 H) TableFamilyIPv6 addrs False excl w"
  unfolding processIPAddr_def processAddrList_atOffset processAddrRange_atOffset
  by (simp add: v6_not_v4)

text \<open>\<open>createL3\<close> compiles the source specification as a source and the destination
  specification as a destination, after the version and the protocol, which do not touch
  the address builders.\<close>

lemma createL3_src_only:
  assumes "\<And>addrs excl w. processIPAddr H fam addrs True excl w
             = processIPAddr (atOffset n H) fam addrs True excl w"
  shows "createL3 H fam (rule\<lparr>L3 := Some (l3\<lparr>Dst := None\<rparr>)\<rparr>) w
       = createL3 (atOffset n H) fam (rule\<lparr>L3 := Some (l3\<lparr>Dst := None\<rparr>)\<rparr>) w"
  by (simp add: createL3_def processVersion_atOffset processProtocol_atOffset assms[symmetric]
        cong: option.case_cong sum.case_cong prod.case_cong)

lemma createL3_dst_only:
  assumes "\<And>addrs excl w. processIPAddr H fam addrs False excl w
             = processIPAddr (atOffset n H) fam addrs False excl w"
  shows "createL3 H fam (rule\<lparr>L3 := Some (l3\<lparr>Src := None\<rparr>)\<rparr>) w
       = createL3 (atOffset n H) fam (rule\<lparr>L3 := Some (l3\<lparr>Src := None\<rparr>)\<rparr>) w"
  by (simp add: createL3_def processVersion_atOffset processProtocol_atOffset assms[symmetric]
        cong: option.case_cong sum.case_cong prod.case_cong)

text \<open>
  The same fact read off the result, for arbitrary builders: the expressions of a
  successful compilation are what the list builder returned, then what the range builder
  returned, each called at the offset of the spec's table.  With the spec's builders every
  header load in them is at that offset.
\<close>

lemma addrOffsetOf_values:
  "addrOffsetOf TableFamilyIPv4 True = 12" "addrOffsetOf TableFamilyIPv4 False = 16"
  "addrOffsetOf TableFamilyIPv6 True = 8" "addrOffsetOf TableFamilyIPv6 False = 24"
  by (simp_all add: addrOffsetOf_def TableFamilyIPv4_def TableFamilyIPv6_def)

lemma processAddrList_builder_call:
  assumes "processAddrList H f n lst excl w = (Inr (re, sp), w')"
  shows "\<exists>s. getExprForListIPV2 H f s n excl = Inr re"
proof -
  obtain name ns where a: "getSetName H (nameState w) = (name, ns)"
    by (metis surj_pair)
  obtain r rs where b: "Intn H (randState w) 0xffff = (r, rs)"
    by (metis surj_pair)
  from assms a b show ?thesis
    unfolding processAddrList_def
    by (simp add: Let_def split: sum.splits if_splits; blast)
qed

lemma processIPAddr_builder_calls:
  assumes "processIPAddr H f addrs src excl w = (Inr (re, ss), w')"
  shows "\<exists>re1 re2. re = re1 @ re2
      \<and> (re1 = [] \<or> (\<exists>s. getExprForListIPV2 H f s (addrOffsetOf f src) excl = Inr re1))
      \<and> (re2 = [] \<or> (\<exists>rng. getExprForRangeIP H f (addrOffsetOf f src) rng excl = Inr re2))"
proof -
  obtain a b where rg: "IPAddrSpec.Range addrs = (a, b)" by (metis surj_pair)
  have list_part: "\<exists>re1.
        (re1 = [] \<or> (\<exists>s. getExprForListIPV2 H f s (addrOffsetOf f src) excl = Inr re1))
      \<and> (re = re1 \<or> (\<exists>lo hi e. a = Some lo \<and> b = Some hi
            \<and> getExprForRangeIP H f (addrOffsetOf f src) (Some lo, Some hi) excl = Inr e
            \<and> re = re1 @ e))"
  proof (cases "IPAddrSpec.List addrs")
    case None
    show ?thesis
    proof (cases "\<exists>lo hi. a = Some lo \<and> b = Some hi")
      case False
      with assms None rg have "re = []"
        by (cases a; cases b) (simp_all add: processIPAddr_def addrOffsetOf_def split: if_splits)
      then show ?thesis by blast
    next
      case True
      then obtain lo hi where ab: "a = Some lo" "b = Some hi" by blast
      with assms None rg obtain e where
        "getExprForRangeIP H f (addrOffsetOf f src) (Some lo, Some hi) excl = Inr e"
        "re = [] @ e"
        by (cases "getExprForRangeIP H f (addrOffsetOf f src) (Some lo, Some hi) excl")
           (simp_all add: processIPAddr_def addrOffsetOf_def processAddrRange_def
              split: if_splits)
      with ab show ?thesis by blast
    qed
  next
    case (Some lst)
    obtain r1 w1 where p: "processAddrList H f (addrOffsetOf f src) lst excl w = (r1, w1)"
      by (metis surj_pair)
    show ?thesis
    proof (cases r1)
      case (Inl err)
      with assms p Some show ?thesis
        by (simp add: processIPAddr_def addrOffsetOf_def split: if_splits)
    next
      case (Inr x)
      then obtain re1 sp where x: "r1 = Inr (re1, sp)" by (cases x) auto
      from processAddrList_builder_call p x
      have call: "\<exists>s. getExprForListIPV2 H f s (addrOffsetOf f src) excl = Inr re1" by blast
      show ?thesis
      proof (cases "\<exists>lo hi. a = Some lo \<and> b = Some hi")
        case False
        with assms p x rg Some have "re = re1"
          by (cases a; cases b)
             (simp_all add: processIPAddr_def addrOffsetOf_def split: if_splits)
        with call show ?thesis by blast
      next
        case True
        then obtain lo hi where ab: "a = Some lo" "b = Some hi" by blast
        with assms p x rg Some obtain e where
          "getExprForRangeIP H f (addrOffsetOf f src) (Some lo, Some hi) excl = Inr e"
          "re = re1 @ e"
          by (cases "getExprForRangeIP H f (addrOffsetOf f src) (Some lo, Some hi) excl")
             (simp_all add: processIPAddr_def addrOffsetOf_def processAddrRange_def
                split: if_splits)
        with call ab show ?thesis by blast
      qed
    qed
  qed
  then show ?thesis by (metis append_Nil2)
qed

lemma spec_list_offsets:
  "spec_getExprForListIPV2 f s n excl = Inr re \<Longrightarrow> payloadOffsets re = [n]"
  by (auto simp: spec_getExprForListIPV2_def split: if_splits)

lemma spec_range_offsets:
  "spec_getExprForRangeIP f n rng excl = Inr re \<Longrightarrow> payloadOffsets re = [n]"
  by (auto simp: spec_getExprForRangeIP_def split: if_splits prod.splits option.splits)

lemma payloadOffsets_append: "payloadOffsets (xs @ ys) = payloadOffsets xs @ payloadOffsets ys"
  by (induction xs rule: payloadOffsets.induct) simp_all

lemma processIPAddr_spec_offsets:
  assumes "processIPAddr (withSpecBuilders H) f addrs src excl w = (Inr (re, ss), w')"
  shows "list_all (\<lambda>off. off = addrOffsetOf f src) (payloadOffsets re)"
proof -
  from processIPAddr_builder_calls[OF assms] obtain re1 re2 where re: "re = re1 @ re2"
    and a: "re1 = [] \<or> (\<exists>s. spec_getExprForListIPV2 f s (addrOffsetOf f src) excl = Inr re1)"
    and b: "re2 = []
            \<or> (\<exists>rng. spec_getExprForRangeIP f (addrOffsetOf f src) rng excl = Inr re2)"
    by (auto simp: withSpecBuilders_def)
  from a have "list_all (\<lambda>off. off = addrOffsetOf f src) (payloadOffsets re1)"
    by (auto dest: spec_list_offsets)
  moreover from b have "list_all (\<lambda>off. off = addrOffsetOf f src) (payloadOffsets re2)"
    by (auto dest: spec_range_offsets)
  ultimately show ?thesis by (simp add: re payloadOffsets_append)
qed

text \<open>
  The expressions of a successful \<open>processIPAddr\<close> are built at the offset of its role
  and family: what the list builder returned for the list given, then what the range
  builder returned for the range given.
\<close>

lemma builtAtI:
  assumes "re = reL @ reR"
    and "case IPAddrSpec.List a of None \<Rightarrow> reL = []
         | Some lst \<Rightarrow> (\<exists>s. getExprForListIPV2 H f s n excl = Inr reL)"
    and "case IPAddrSpec.Range a of
           (Some lo, Some hi) \<Rightarrow> getExprForRangeIP H f n (IPAddrSpec.Range a) excl = Inr reR
         | _ \<Rightarrow> reR = []"
  shows "builtAt H f n (Some a) excl re"
  unfolding builtAt_def option.case
  using assms by (intro exI[of _ reL] exI[of _ reR] conjI)

lemma processIPAddr_parts:
  assumes "processIPAddr H f addrs src excl w = (Inr (re, ss), w')"
    and rg: "IPAddrSpec.Range addrs = (a, b)"
  shows "\<exists>re1.
        ((IPAddrSpec.List addrs = None \<and> re1 = [])
         \<or> (\<exists>lst s. IPAddrSpec.List addrs = Some lst
               \<and> getExprForListIPV2 H f s (addrOffsetOf f src) excl = Inr re1))
      \<and> ((\<not> (\<exists>lo hi. a = Some lo \<and> b = Some hi) \<and> re = re1)
         \<or> (\<exists>lo hi e. a = Some lo \<and> b = Some hi
            \<and> getExprForRangeIP H f (addrOffsetOf f src) (Some lo, Some hi) excl = Inr e
            \<and> re = re1 @ e))"
proof (cases "IPAddrSpec.List addrs")
  case None
  show ?thesis
  proof (cases "\<exists>lo hi. a = Some lo \<and> b = Some hi")
    case False
    with assms None have "re = []"
      by (cases a; cases b) (simp_all add: processIPAddr_def addrOffsetOf_def split: if_splits)
    with None False show ?thesis by blast
  next
    case True
    then obtain lo hi where ab: "a = Some lo" "b = Some hi" by blast
    with assms None obtain e where
      "getExprForRangeIP H f (addrOffsetOf f src) (Some lo, Some hi) excl = Inr e"
      "re = [] @ e"
      by (cases "getExprForRangeIP H f (addrOffsetOf f src) (Some lo, Some hi) excl")
         (simp_all add: processIPAddr_def addrOffsetOf_def processAddrRange_def
            split: if_splits)
    with ab None show ?thesis by blast
  qed
next
  case (Some lst)
  obtain r1 w1 where p: "processAddrList H f (addrOffsetOf f src) lst excl w = (r1, w1)"
    by (metis surj_pair)
  show ?thesis
  proof (cases r1)
    case (Inl err)
    with assms p Some show ?thesis
      by (simp add: processIPAddr_def addrOffsetOf_def split: if_splits)
  next
    case (Inr x)
    then obtain re1 sp where x: "r1 = Inr (re1, sp)" by (cases x) auto
    from processAddrList_builder_call p x
    obtain s where call: "getExprForListIPV2 H f s (addrOffsetOf f src) excl = Inr re1"
      by blast
    show ?thesis
    proof (cases "\<exists>lo hi. a = Some lo \<and> b = Some hi")
      case False
      with assms p x Some have "re = re1"
        by (cases a; cases b)
           (simp_all add: processIPAddr_def addrOffsetOf_def split: if_splits)
      with call Some False show ?thesis by blast
    next
      case True
      then obtain lo hi where ab: "a = Some lo" "b = Some hi" by blast
      with assms p x Some obtain e where
        "getExprForRangeIP H f (addrOffsetOf f src) (Some lo, Some hi) excl = Inr e"
        "re = re1 @ e"
        by (cases "getExprForRangeIP H f (addrOffsetOf f src) (Some lo, Some hi) excl")
           (simp_all add: processIPAddr_def addrOffsetOf_def processAddrRange_def
              split: if_splits)
      with call ab Some show ?thesis by blast
    qed
  qed
qed

lemma processIPAddr_builtAt:
  assumes "processIPAddr H f addrs src excl w = (Inr (re, ss), w')"
  shows "builtAt H f (addrOffsetOf f src) (Some addrs) excl re"
proof -
  obtain a b where rg: "IPAddrSpec.Range addrs = (a, b)" by (metis surj_pair)
  from processIPAddr_parts[OF assms rg] obtain re1 where
    L: "(IPAddrSpec.List addrs = None \<and> re1 = [])
         \<or> (\<exists>lst s. IPAddrSpec.List addrs = Some lst
               \<and> getExprForListIPV2 H f s (addrOffsetOf f src) excl = Inr re1)"
    and R: "(\<not> (\<exists>lo hi. a = Some lo \<and> b = Some hi) \<and> re = re1)
         \<or> (\<exists>lo hi e. a = Some lo \<and> b = Some hi
            \<and> getExprForRangeIP H f (addrOffsetOf f src) (Some lo, Some hi) excl = Inr e
            \<and> re = re1 @ e)"
    by blast
  have L': "case IPAddrSpec.List addrs of None \<Rightarrow> re1 = []
         | Some lst \<Rightarrow> (\<exists>s. getExprForListIPV2 H f s (addrOffsetOf f src) excl = Inr re1)"
    using L by (cases "IPAddrSpec.List addrs") auto
  from R show ?thesis
  proof
    assume r: "\<not> (\<exists>lo hi. a = Some lo \<and> b = Some hi) \<and> re = re1"
    then have "case IPAddrSpec.Range addrs of
           (Some lo, Some hi) \<Rightarrow>
             getExprForRangeIP H f (addrOffsetOf f src) (IPAddrSpec.Range addrs) excl = Inr []
         | _ \<Rightarrow> [] = ([] :: 'a list)"
      unfolding rg by (cases a; cases b) simp_all
    moreover from r have "re = re1 @ []" by simp
    ultimately show ?thesis using L' by (intro builtAtI[where reL = re1 and reR = "[]"])
  next
    assume "\<exists>lo hi e. a = Some lo \<and> b = Some hi
            \<and> getExprForRangeIP H f (addrOffsetOf f src) (Some lo, Some hi) excl = Inr e
            \<and> re = re1 @ e"
    then obtain lo hi e where ab: "a = Some lo" "b = Some hi"
      and e: "getExprForRangeIP H f (addrOffsetOf f src) (Some lo, Some hi) excl = Inr e"
      and re: "re = re1 @ e" by blast
    have "case IPAddrSpec.Range addrs of
           (Some lo, Some hi) \<Rightarrow>
             getExprForRangeIP H f (addrOffsetOf f src) (IPAddrSpec.Range addrs) excl = Inr e
         | _ \<Rightarrow> e = []"
      unfolding rg ab using e by simp
    with re L' show ?thesis by (intro builtAtI[where reL = re1 and reR = e])
  qed
qed

lemma builtAt_None: "builtAt H f n None excl []"
  by (simp add: builtAt_def)

text \<open>
  A successful \<open>createL3\<close> returns the expressions of the version, of the protocol, of
  the source and of the destination, in that order; those of the source are built at the
  source offset of the family and those of the destination at its destination offset,
  whichever of the four fields are populated.
\<close>

lemma createL3_parts:
  assumes "createL3 H f rule w = (Inr (re, ss), w')"
  shows "\<exists>l3 reV reP reS reD. L3 rule = Some l3 \<and> re = reV @ reP @ reS @ reD
      \<and> builtVersion H l3 (Exclude rule) reV
      \<and> builtProtocol H f l3 (Exclude rule) reP
      \<and> builtAt H f (addrOffsetOf f True) (Src l3) (Exclude rule) reS
      \<and> builtAt H f (addrOffsetOf f False) (Dst l3) (Exclude rule) reD"
proof -
  from assms obtain l3 where l3: "L3 rule = Some l3"
    by (cases "L3 rule") (simp_all add: createL3_def)
  let ?V = "case Version l3 of None \<Rightarrow> Inr [] | Some v \<Rightarrow>
              (case processVersion H v (Exclude rule) of Inl err \<Rightarrow> Inl err
               | Inr (e, _) \<Rightarrow> Inr ([] @ e))"
  from assms l3 obtain reV where v: "?V = Inr reV"
    by (cases ?V) (simp_all add: createL3_def)
  have bv: "builtVersion H l3 (Exclude rule) reV"
    using v by (auto simp: builtVersion_def processVersion_def split: option.splits sum.splits)
  let ?P = "case Protocol l3 of None \<Rightarrow> Inr reV | Some p \<Rightarrow>
              (case processProtocol H f p (Exclude rule) of Inl err \<Rightarrow> Inl err
               | Inr (e, _) \<Rightarrow> Inr (reV @ e))"
  from assms l3 v obtain re2 where p: "?P = Inr re2"
    by (cases ?P) (simp_all add: createL3_def)
  have "\<exists>reP. re2 = reV @ reP \<and> builtProtocol H f l3 (Exclude rule) reP"
    using p by (auto simp: builtProtocol_def processProtocol_def split: option.splits sum.splits)
  then obtain reP where re2: "re2 = reV @ reP"
    and bp: "builtProtocol H f l3 (Exclude rule) reP" by blast
  have src: "\<exists>reS ss3 w1.
      (case Src l3 of None \<Rightarrow> (Inr (re2, []), w)
       | Some a \<Rightarrow> (case processIPAddr H f a True (Exclude rule) w of
                      (Inl err, w1) \<Rightarrow> (Inl err, w1)
                    | (Inr (e, sets0), w1) \<Rightarrow> (Inr (re2 @ e, [] @ sets0), w1)))
        = (Inr (re2 @ reS, ss3), w1)
      \<and> builtAt H f (addrOffsetOf f True) (Src l3) (Exclude rule) reS"
  proof (cases "Src l3")
    case None
    then show ?thesis by (simp add: builtAt_None)
  next
    case (Some a)
    obtain r1 w1 where s: "processIPAddr H f a True (Exclude rule) w = (r1, w1)"
      by (metis surj_pair)
    show ?thesis
    proof (cases r1)
      case (Inl err)
      with assms l3 v p Some s show ?thesis by (simp add: createL3_def)
    next
      case (Inr x)
      then obtain e ss1 where x: "r1 = Inr (e, ss1)" by (cases x) auto
      from processIPAddr_builtAt s x
      have "builtAt H f (addrOffsetOf f True) (Some a) (Exclude rule) e" by blast
      with Some s x show ?thesis by simp
    qed
  qed
  then obtain reS ss3 w1 where s3:
      "(case Src l3 of None \<Rightarrow> (Inr (re2, []), w)
       | Some a \<Rightarrow> (case processIPAddr H f a True (Exclude rule) w of
                      (Inl err, w1) \<Rightarrow> (Inl err, w1)
                    | (Inr (e, sets0), w1) \<Rightarrow> (Inr (re2 @ e, [] @ sets0), w1)))
        = (Inr (re2 @ reS, ss3), w1)"
    and bs: "builtAt H f (addrOffsetOf f True) (Src l3) (Exclude rule) reS" by blast
  have "\<exists>reD. re = re2 @ reS @ reD
      \<and> builtAt H f (addrOffsetOf f False) (Dst l3) (Exclude rule) reD"
  proof (cases "Dst l3")
    case None
    with assms l3 v p s3 have "re = re2 @ reS" by (simp add: createL3_def)
    with None show ?thesis by (simp add: builtAt_None)
  next
    case (Some b)
    obtain r2 w2 where d: "processIPAddr H f b False (Exclude rule) w1 = (r2, w2)"
      by (metis surj_pair)
    show ?thesis
    proof (cases r2)
      case (Inl err)
      with assms l3 v p s3 Some d show ?thesis by (simp add: createL3_def)
    next
      case (Inr x)
      then obtain e ss2 where x: "r2 = Inr (e, ss2)" by (cases x) auto
      from processIPAddr_builtAt d x
      have b: "builtAt H f (addrOffsetOf f False) (Some b) (Exclude rule) e" by blast
      from assms l3 v p s3 Some d x have "re = (re2 @ reS) @ e" by (simp add: createL3_def)
      with b Some show ?thesis by simp
    qed
  qed
  then obtain reD where "re = re2 @ reS @ reD"
    and bd: "builtAt H f (addrOffsetOf f False) (Dst l3) (Exclude rule) reD" by blast
  with re2 have "re = reV @ reP @ reS @ reD" by simp
  with l3 bv bp bs bd show ?thesis by blast
qed

text \<open>
  Claim C6.  Whatever the expression builders are and whichever fields of the rule are
  populated, the expressions of a rule that \<open>createL3\<close> compiles are those of the version,
  of the protocol, of the source and of the destination, where the source expressions are
  what the address builders returned when called with the offset 12 for IPv4 and 8 for
  IPv6, and the destination expressions what they returned when called with the offset 16
  for IPv4 and 24 for IPv6.  The same holds of one address specification compiled by
  \<open>processIPAddr\<close> in the source or in the destination role.
\<close>

theorem address_offsets:
  "(createL3 H TableFamilyIPv4 rule w = (Inr (re, ss), w') \<longrightarrow>
      (\<exists>l3 reV reP reS reD. L3 rule = Some l3 \<and> re = reV @ reP @ reS @ reD
         \<and> builtVersion H l3 (Exclude rule) reV
         \<and> builtProtocol H TableFamilyIPv4 l3 (Exclude rule) reP
         \<and> builtAt H TableFamilyIPv4 12 (Src l3) (Exclude rule) reS
         \<and> builtAt H TableFamilyIPv4 16 (Dst l3) (Exclude rule) reD))
   \<and> (createL3 H TableFamilyIPv6 rule w = (Inr (re, ss), w') \<longrightarrow>
      (\<exists>l3 reV reP reS reD. L3 rule = Some l3 \<and> re = reV @ reP @ reS @ reD
         \<and> builtVersion H l3 (Exclude rule) reV
         \<and> builtProtocol H TableFamilyIPv6 l3 (Exclude rule) reP
         \<and> builtAt H TableFamilyIPv6 8 (Src l3) (Exclude rule) reS
         \<and> builtAt H TableFamilyIPv6 24 (Dst l3) (Exclude rule) reD))
   \<and> (processIPAddr H TableFamilyIPv4 addrs True excl w = (Inr (re, ss), w') \<longrightarrow>
        builtAt H TableFamilyIPv4 12 (Some addrs) excl re)
   \<and> (processIPAddr H TableFamilyIPv4 addrs False excl w = (Inr (re, ss), w') \<longrightarrow>
        builtAt H TableFamilyIPv4 16 (Some addrs) excl re)
   \<and> (processIPAddr H TableFamilyIPv6 addrs True excl w = (Inr (re, ss), w') \<longrightarrow>
        builtAt H TableFamilyIPv6 8 (Some addrs) excl re)
   \<and> (processIPAddr H TableFamilyIPv6 addrs False excl w = (Inr (re, ss), w') \<longrightarrow>
        builtAt H TableFamilyIPv6 24 (Some addrs) excl re)"
proof (intro conjI impI)
  assume "createL3 H TableFamilyIPv4 rule w = (Inr (re, ss), w')"
  from createL3_parts[OF this]
  show "\<exists>l3 reV reP reS reD. L3 rule = Some l3 \<and> re = reV @ reP @ reS @ reD
         \<and> builtVersion H l3 (Exclude rule) reV
         \<and> builtProtocol H TableFamilyIPv4 l3 (Exclude rule) reP
         \<and> builtAt H TableFamilyIPv4 12 (Src l3) (Exclude rule) reS
         \<and> builtAt H TableFamilyIPv4 16 (Dst l3) (Exclude rule) reD"
    by (simp only: addrOffsetOf_values)
next
  assume "createL3 H TableFamilyIPv6 rule w = (Inr (re, ss), w')"
  from createL3_parts[OF this]
  show "\<exists>l3 reV reP reS reD. L3 rule = Some l3 \<and> re = reV @ reP @ reS @ reD
         \<and> builtVersion H l3 (Exclude rule) reV
         \<and> builtProtocol H TableFamilyIPv6 l3 (Exclude rule) reP
         \<and> builtAt H TableFamilyIPv6 8 (Src l3) (Exclude rule) reS
         \<and> builtAt H TableFamilyIPv6 24 (Dst l3) (Exclude rule) reD"
    by (simp only: addrOffsetOf_values)
next
  assume "processIPAddr H TableFamilyIPv4 addrs True excl w = (Inr (re, ss), w')"
  from processIPAddr_builtAt[OF this]
  show "builtAt H TableFamilyIPv4 12 (Some addrs) excl re"
    by (simp only: addrOffsetOf_values)
next
  assume "processIPAddr H TableFamilyIPv4 addrs False excl w = (Inr (re, ss), w')"
  from processIPAddr_builtAt[OF this]
  show "builtAt H TableFamilyIPv4 16 (Some addrs) excl re"
    by (simp only: addrOffsetOf_values)
next
  assume "processIPAddr H TableFamilyIPv6 addrs True excl w = (Inr (re, ss), w')"
  from processIPAddr_builtAt[OF this]
  show "builtAt H TableFamilyIPv6 8 (Some addrs) excl re"
    by (simp only: addrOffsetOf_values)
next
  assume "processIPAddr H TableFamilyIPv6 addrs False excl w = (Inr (re, ss), w')"
  from processIPAddr_builtAt[OF this]
  show "builtAt H TableFamilyIPv6 24 (Some addrs) excl re"
    by (simp only: addrOffsetOf_values)
qed

theorem address_offsets_witness:
  "fst (createL3 exampleEnv TableFamilyIPv4 bothRule exampleWorld)
     = Inr (bothExprs, [listSet\<lparr>set' := (set' listSet)\<lparr>Set.KeyType := TypeIPAddr\<rparr>\<rparr>])
   \<and> (\<exists>l3 reV reP reS reD. L3 bothRule = Some l3 \<and> bothExprs = reV @ reP @ reS @ reD
         \<and> builtVersion exampleEnv l3 (Exclude bothRule) reV
         \<and> builtProtocol exampleEnv TableFamilyIPv4 l3 (Exclude bothRule) reP
         \<and> builtAt exampleEnv TableFamilyIPv4 12 (Src l3) (Exclude bothRule) reS
         \<and> builtAt exampleEnv TableFamilyIPv4 16 (Dst l3) (Exclude bothRule) reD)
   \<and> payloadOffsets bothExprs = [12, 16]"
proof -
  have h: "fst (createL3 exampleEnv TableFamilyIPv4 bothRule exampleWorld)
     = Inr (bothExprs, [listSet\<lparr>set' := (set' listSet)\<lparr>Set.KeyType := TypeIPAddr\<rparr>\<rparr>])"
    by (simp add: createL3_def processIPAddr_def processAddrList_def processAddrRange_def
          processProtocol_def bothRule_def bothExprs_def rangeSpec_def
          exampleEnv_def listSpec_def exampleWorld_def exampleIntn_def
          spec_getExprForListIPV2_def spec_getExprForRangeIP_def To4_def addSet_def Let_def
          Set0_def listSet_def TableFamilyIPv4_def TableFamilyIPv6_def)
  then obtain w' where c: "createL3 exampleEnv TableFamilyIPv4 bothRule exampleWorld
     = (Inr (bothExprs, [listSet\<lparr>set' := (set' listSet)\<lparr>Set.KeyType := TypeIPAddr\<rparr>\<rparr>]), w')"
    by (cases "createL3 exampleEnv TableFamilyIPv4 bothRule exampleWorld") simp
  have p: "payloadOffsets bothExprs = [12, 16]"
    by (simp add: bothExprs_def)
  from address_offsets [of exampleEnv bothRule exampleWorld bothExprs
      "[listSet\<lparr>set' := (set' listSet)\<lparr>Set.KeyType := TypeIPAddr\<rparr>\<rparr>]" w'] c h p
  show ?thesis by blast
qed

end
